theory Spec2Isabelle
  imports Main "HOL-Library.AList" "HOL-Library.Sublist"
begin

section \<open>Python values and exceptions\<close>

text \<open>
  The two scripts \<^verbatim>\<open>ai-3.py\<close> and \<^verbatim>\<open>ai-4.py\<close> work on decoded JSON documents.
  A decoded document is a value of \<open>json\<close>; an object keeps its members as the list of
  key/value pairs in the order the decoder met them, and the dictionary operations below
  give that list the meaning of a Python \<^verbatim>\<open>dict\<close> (a later pair with the same key
  replaces the value and keeps the position of the first). JSON numbers with a fraction
  or an exponent (Python floats) are outside this model.
\<close>

datatype json =
    JNull
  | JBool bool
  | JNum int
  | JStr string
  | JArr "json list"
  | JObj "(string \<times> json) list"

text \<open>
  The exceptions that the modelled code can raise. \<open>SystemExit\<close> derives from
  \<^verbatim>\<open>BaseException\<close> only; every other constructor is a subclass of \<^verbatim>\<open>Exception\<close>.
  \<open>HTTPError status reason url\<close> is what \<^verbatim>\<open>Response.raise_for_status\<close> raises.
\<close>

datatype request_exception = ConnectionError | Timeout | TooManyRedirects

datatype exn =
    SystemExit exn
  | HTTPError int string string
  | RequestException request_exception
  | JSONDecodeError
  | AttributeError
  | TypeError
  | KeyError json
  | ValueError
  | OverflowError

fun is_Exception :: "exn \<Rightarrow> bool" where
  "is_Exception (SystemExit _) = False"
| "is_Exception _ = True"

section \<open>The endpoint client\<close>

text \<open>
  \<^verbatim>\<open>requests.get(url, headers=headers)\<close> either raises a transport exception or returns
  a response with a status code, a reason phrase and a body; \<open>json_body\<close> is \<open>None\<close> when
  the body is not a JSON text, in which case \<^verbatim>\<open>response.json()\<close> raises.
\<close>

datatype response = Response (status_code: int) (reason: string) (json_body: "json option")

datatype outcome = Raised request_exception | Returned response

datatype request = Request (req_url: string) (authorization: "string option")

text \<open>
  The outside world: the outcome of the \<open>n\<close>-th request of a run (counting from 0),
  and the value of the environment variable \<^verbatim>\<open>SECTORS_API_KEY\<close>. The state threaded
  through the code is the list of requests issued so far.
\<close>

record env =
  SECTORS_API_KEY :: "string option"
  network :: "nat \<Rightarrow> request \<Rightarrow> outcome"

type_synonym log = "request list"

definition requests_get :: "env \<Rightarrow> string \<Rightarrow> string option \<Rightarrow> log \<Rightarrow> outcome \<times> log" where
  "requests_get e url headers lg =
     (let rq = Request url headers in (network e (length lg) rq, lg @ [rq]))"

text \<open>\<^verbatim>\<open>raise_for_status\<close> of the requests library: an error for 4xx and 5xx only.\<close>

definition raise_for_status :: "string \<Rightarrow> response \<Rightarrow> exn + unit" where
  "raise_for_status url r =
     (if 400 \<le> status_code r \<and> status_code r < 600
      then Inl (HTTPError (status_code r) (reason r) url)
      else Inr ())"

definition response_json :: "response \<Rightarrow> exn + json" where
  "response_json r = (case json_body r of None \<Rightarrow> Inl JSONDecodeError | Some d \<Rightarrow> Inr d)"

text \<open>
  \<^verbatim>\<open>json.dumps\<close> followed by \<^verbatim>\<open>json.loads\<close> gives back an equal value on every
  decoded document, so the text between them is kept abstract.
\<close>

datatype json_text = Dumped json

definition json_dumps :: "json \<Rightarrow> json_text" where
  "json_dumps d = Dumped d"

fun json_loads :: "json_text \<Rightarrow> json" where
  "json_loads (Dumped d) = d"

text \<open>
  \<^verbatim>\<open>
  def retrieve_from_endpoint(url: str) -> dict:
      headers = {"Authorization": SECTORS_API_KEY}
      try:
          response = requests.get(url, headers=headers)
          response.raise_for_status()
          data = response.json()
      except requests.exceptions.HTTPError as err:
          raise SystemExit(err)
      return json.dumps(data)
  \<close>
  The function is the same in both scripts.
\<close>

definition retrieve_from_endpoint :: "env \<Rightarrow> string \<Rightarrow> log \<Rightarrow> (exn + json_text) \<times> log" where
  "retrieve_from_endpoint e url lg =
     (let headers = SECTORS_API_KEY e;
          (r, lg') = requests_get e url headers lg
      in case r of
           Raised x \<Rightarrow> (Inl (RequestException x), lg')
         | Returned response \<Rightarrow>
             (case raise_for_status url response of
                Inl err \<Rightarrow> (Inl (SystemExit err), lg')
              | Inr _ \<Rightarrow>
                  (case response_json response of
                     Inl x \<Rightarrow> (Inl x, lg')
                   | Inr data \<Rightarrow> (Inr (json_dumps data), lg'))))"

section \<open>Python operations on decoded documents\<close>

text \<open>
  Building a \<^verbatim>\<open>dict\<close> from pairs: a key met again keeps its place and takes the new
  value, a new key goes to the end. \<open>AList.update\<close> is exactly the assignment
  \<^verbatim>\<open>d[k] = v\<close> on an insertion-ordered dictionary.
\<close>

definition dict_of_pairs :: "('k \<times> 'v) list \<Rightarrow> ('k \<times> 'v) list" where
  "dict_of_pairs kvs = foldl (\<lambda>d (k, v). AList.update k v d) [] kvs"

text \<open>\<^verbatim>\<open>x.values()\<close>: only a dict has the method.\<close>

fun py_values :: "json \<Rightarrow> exn + json list" where
  "py_values (JObj kvs) = Inr (map snd (dict_of_pairs kvs))"
| "py_values _ = Inl AttributeError"

text \<open>
  \<^verbatim>\<open>for c in x\<close>: a list gives its elements, a dict its keys, a string its characters;
  \<^verbatim>\<open>None\<close>, booleans and integers are not iterable.
\<close>

fun py_iter :: "json \<Rightarrow> exn + json list" where
  "py_iter (JArr xs) = Inr xs"
| "py_iter (JObj kvs) = Inr (map (\<lambda>kv. JStr (fst kv)) (dict_of_pairs kvs))"
| "py_iter (JStr s) = Inr (map (\<lambda>c. JStr [c]) s)"
| "py_iter _ = Inl TypeError"

text \<open>\<^verbatim>\<open>x['key']\<close> with a string key: a lookup on a dict, a \<^verbatim>\<open>TypeError\<close> on anything else.\<close>

fun py_getitem :: "json \<Rightarrow> string \<Rightarrow> exn + json" where
  "py_getitem (JObj kvs) k =
     (case map_of (dict_of_pairs kvs) k of None \<Rightarrow> Inl (KeyError (JStr k)) | Some v \<Rightarrow> Inr v)"
| "py_getitem _ k = Inl TypeError"

text \<open>
  Using a value as a dictionary key hashes it: lists and dicts are unhashable. \<^verbatim>\<open>True\<close>
  and \<^verbatim>\<open>False\<close> hash and compare equal to \<^verbatim>\<open>1\<close> and \<^verbatim>\<open>0\<close>, so a key is
  kept in this normal form (a boolean key also formats as \<^verbatim>\<open>1\<close> or \<^verbatim>\<open>0\<close> under a
  width specification, so nothing in the scripts can tell the two apart).
\<close>

fun py_hash_key :: "json \<Rightarrow> exn + json" where
  "py_hash_key (JArr _) = Inl TypeError"
| "py_hash_key (JObj _) = Inl TypeError"
| "py_hash_key (JBool b) = Inr (JNum (if b then 1 else 0))"
| "py_hash_key k = Inr k"

text \<open>\<^verbatim>\<open>total + volume\<close> with an integer on the left.\<close>

fun py_add :: "int \<Rightarrow> json \<Rightarrow> exn + int" where
  "py_add t (JNum n) = Inr (t + n)"
| "py_add t (JBool b) = Inr (t + (if b then 1 else 0))"
| "py_add t _ = Inl TypeError"

text \<open>
  \<^verbatim>\<open>sorted(xs, key=key, reverse=True)\<close>: CPython reverses the list, sorts it stably in
  ascending order and reverses the outcome.
\<close>

definition py_sorted_reverse :: "('a \<Rightarrow> int) \<Rightarrow> 'a list \<Rightarrow> 'a list" where
  "py_sorted_reverse key xs = rev (sort_key key (rev xs))"

text \<open>\<^verbatim>\<open>xs[:n]\<close>: a negative \<open>n\<close> counts from the end.\<close>

definition py_slice_to :: "'a list \<Rightarrow> int \<Rightarrow> 'a list" where
  "py_slice_to xs n =
     (if 0 \<le> n then take (nat n) xs else take (nat (int (length xs) + n)) xs)"

text \<open>\<^verbatim>\<open>str(n)\<close> for an integer.\<close>

definition digit_char :: "nat \<Rightarrow> char" where
  "digit_char n = ''0123456789'' ! n"

fun show_nat :: "nat \<Rightarrow> string" where
  "show_nat n =
     (if n < 10 then [digit_char n] else show_nat (n div 10) @ [digit_char (n mod 10)])"

declare show_nat.simps [simp del]

definition show_int :: "int \<Rightarrow> string" where
  "show_int i = (if i < 0 then CHR ''-'' # show_nat (nat (- i)) else show_nat (nat i))"

text \<open>
  \<^verbatim>\<open>f"{v:<w}"\<close>: pads on the right to width \<open>w\<close> and never truncates. Strings and
  integers accept the specification (a boolean is formatted as the integer it is);
  \<^verbatim>\<open>None\<close>, lists and dicts raise \<^verbatim>\<open>TypeError\<close>.
\<close>

definition ljust :: "nat \<Rightarrow> string \<Rightarrow> string" where
  "ljust w s = s @ replicate (w - length s) CHR '' ''"

fun py_format_left :: "nat \<Rightarrow> json \<Rightarrow> exn + string" where
  "py_format_left w (JStr s) = Inr (ljust w s)"
| "py_format_left w (JNum n) = Inr (ljust w (show_int n))"
| "py_format_left w (JBool b) = Inr (ljust w (show_int (if b then 1 else 0)))"
| "py_format_left w _ = Inl TypeError"

section \<open>The volume aggregator\<close>

record entry =
  symbol :: json
  total_volume :: int

type_synonym company_volumes = "(json \<times> entry) list"

text \<open>
  The body of the inner loop:
  \<^verbatim>\<open>
  name = company['company_name']
  volume = company['volume']
  if name not in company_volumes:
      company_volumes[name] = {'symbol': company['symbol'], 'total_volume': 0}
  company_volumes[name]['total_volume'] += volume
  \<close>
\<close>

definition add_company :: "company_volumes \<Rightarrow> json \<Rightarrow> exn + company_volumes" where
  "add_company cv company =
     (case py_getitem company ''company_name'' of Inl x \<Rightarrow> Inl x | Inr name \<Rightarrow>
     (case py_getitem company ''volume'' of Inl x \<Rightarrow> Inl x | Inr volume \<Rightarrow>
     (case py_hash_key name of Inl x \<Rightarrow> Inl x | Inr k \<Rightarrow>
     (case (if map_of cv k = None
            then (case py_getitem company ''symbol'' of Inl x \<Rightarrow> Inl x
                  | Inr s \<Rightarrow> Inr (AList.update k \<lparr>symbol = s, total_volume = 0\<rparr> cv))
            else Inr cv) of Inl x \<Rightarrow> Inl x | Inr cv1 \<Rightarrow>
     (case map_of cv1 k of None \<Rightarrow> Inl (KeyError k) | Some en \<Rightarrow>
     (case py_add (total_volume en) volume of Inl x \<Rightarrow> Inl x | Inr t \<Rightarrow>
      Inr (AList.update k (en\<lparr>total_volume := t\<rparr>) cv1)))))))"

fun inner_loop :: "company_volumes \<Rightarrow> json list \<Rightarrow> exn + company_volumes" where
  "inner_loop cv [] = Inr cv"
| "inner_loop cv (company # rest) =
     (case add_company cv company of Inl x \<Rightarrow> Inl x | Inr cv1 \<Rightarrow> inner_loop cv1 rest)"

fun outer_loop :: "company_volumes \<Rightarrow> json list \<Rightarrow> exn + company_volumes" where
  "outer_loop cv [] = Inr cv"
| "outer_loop cv (companies # rest) =
     (case py_iter companies of Inl x \<Rightarrow> Inl x | Inr cs \<Rightarrow>
     (case inner_loop cv cs of Inl x \<Rightarrow> Inl x | Inr cv1 \<Rightarrow> outer_loop cv1 rest))"

text \<open>The dictionary \<^verbatim>\<open>company_volumes\<close> after both loops, before sorting.\<close>

definition sum_company_volumes :: "json \<Rightarrow> exn + company_volumes" where
  "sum_company_volumes data_dict =
     (case py_values data_dict of Inl x \<Rightarrow> Inl x | Inr days \<Rightarrow> outer_loop [] days)"

text \<open>
  \<^verbatim>\<open>
  def aggregate_volumes(data_dict, top_n):
      data_dict = json.loads(data_dict)
      company_volumes = {}
      for companies in data_dict.values():
          for company in companies:
              ...
      sorted_companies = sorted(company_volumes.items(),
                                key=lambda item: item[1]['total_volume'], reverse=True)
      return dict(sorted_companies[:top_n])
  \<close>
  In \<^verbatim>\<open>ai-4.py\<close> the function has the same body and takes \<^verbatim>\<open>top_n\<close> from the
  enclosing call.
\<close>

definition aggregate_volumes :: "json_text \<Rightarrow> int \<Rightarrow> exn + company_volumes" where
  "aggregate_volumes data_text top_n =
     (let data_dict = json_loads data_text in
      case sum_company_volumes data_dict of Inl x \<Rightarrow> Inl x
      | Inr cv \<Rightarrow>
          (let sorted_companies = py_sorted_reverse (\<lambda>item. total_volume (snd item)) cv
           in Inr (dict_of_pairs (py_slice_to sorted_companies top_n))))"

section \<open>The result table\<close>

definition newline :: string where
  "newline = [CHR 0x0A]"

definition rule_line :: string where
  "rule_line = replicate 32 CHR ''-'' @ newline"

definition header_row :: string where
  "header_row = ljust 20 ''Company Name'' @ ljust 10 ''Symbol'' @ ljust 15 ''Total Volume'' @ newline"

text \<open>
  One data row:
  \<^verbatim>\<open>f"{company:<20}{data['symbol']:<10}{data['total_volume']:<15}\n"\<close>
\<close>

definition table_row :: "json \<times> entry \<Rightarrow> exn + string" where
  "table_row item =
     (case py_format_left 20 (fst item) of Inl x \<Rightarrow> Inl x | Inr c \<Rightarrow>
     (case py_format_left 10 (symbol (snd item)) of Inl x \<Rightarrow> Inl x | Inr s \<Rightarrow>
     (case py_format_left 15 (JNum (total_volume (snd item))) of Inl x \<Rightarrow> Inl x | Inr v \<Rightarrow>
      Inr (c @ s @ v @ newline))))"

text \<open>The loop \<^verbatim>\<open>for company, data in aggregated_data.items(): result += ...\<close>\<close>

fun append_rows :: "string \<Rightarrow> company_volumes \<Rightarrow> exn + string" where
  "append_rows result [] = Inr result"
| "append_rows result (item # rest) =
     (case table_row item of Inl x \<Rightarrow> Inl x | Inr row \<Rightarrow> append_rows (result @ row) rest)"

text \<open>
  The formatting block of \<^verbatim>\<open>ai-3.py\<close> (lines 89 to 98), which starts from a fixed
  title, and of \<^verbatim>\<open>ai-4.py\<close> (lines 106 to 115), whose title carries the date that
  the resolver returned.
\<close>

definition format_table_3 :: "company_volumes \<Rightarrow> exn + string" where
  "format_table_3 aggregated_data =
     (let result = ''Top Companies by Transaction Volume'' @ newline;
          result = result @ rule_line;
          result = result @ header_row;
          result = result @ rule_line
      in append_rows result aggregated_data)"

definition format_table_4 :: "string \<Rightarrow> company_volumes \<Rightarrow> exn + string" where
  "format_table_4 valid_date company_data =
     (let result = ''Here is the top companies by transaction volume for '' @ valid_date
                     @ '':'' @ newline;
          result = result @ rule_line;
          result = result @ header_row;
          result = result @ rule_line
      in append_rows result company_data)"

section \<open>The tool of \<^verbatim>\<open>ai-3.py\<close>\<close>

definition most_traded_url :: "string \<Rightarrow> string \<Rightarrow> int \<Rightarrow> string" where
  "most_traded_url start_date end_date top_n =
     ''https://api.sectors.app/v1/most-traded/?start='' @ start_date
       @ ''&end='' @ end_date @ ''&n_stock='' @ show_int top_n"

text \<open>
  \<^verbatim>\<open>
  url = f"https://api.sectors.app/v1/most-traded/?start={start_date}&end={end_date}&n_stock={top_n}"
  aggregated_data = aggregate_volumes(retrieve_from_endpoint(url), top_n)
  result = "Top Companies by Transaction Volume\n"
  ...
  return result
  \<close>
\<close>

definition get_top_companies_by_tx_volume_3 ::
    "env \<Rightarrow> string \<Rightarrow> string \<Rightarrow> int \<Rightarrow> log \<Rightarrow> (exn + string) \<times> log" where
  "get_top_companies_by_tx_volume_3 e start_date end_date top_n lg =
     (let url = most_traded_url start_date end_date top_n;
          (r, lg1) = retrieve_from_endpoint e url lg
      in case r of
           Inl x \<Rightarrow> (Inl x, lg1)
         | Inr data \<Rightarrow>
             (case aggregate_volumes data top_n of
                Inl x \<Rightarrow> (Inl x, lg1)
              | Inr aggregated_data \<Rightarrow> (format_table_3 aggregated_data, lg1)))"

section \<open>Calendar dates\<close>

text \<open>
  The date part of a \<^verbatim>\<open>datetime\<close>; the time of day stays at midnight throughout and
  is left out. Python accepts the years 1 to 9999.
\<close>

datatype date = Date (year: nat) (month: nat) (day: nat)

definition is_leap :: "nat \<Rightarrow> bool" where
  "is_leap y = (y mod 4 = 0 \<and> (y mod 100 \<noteq> 0 \<or> y mod 400 = 0))"

definition days_in_month :: "nat \<Rightarrow> nat \<Rightarrow> nat" where
  "days_in_month y m =
     (if m = 2 then (if is_leap y then 29 else 28)
      else if m = 4 \<or> m = 6 \<or> m = 9 \<or> m = 11 then 30 else 31)"

text \<open>
  \<^verbatim>\<open>datetime.strptime(s, "%Y-%m-%d")\<close>: the directive \<^verbatim>\<open>%Y\<close> takes four digits,
  \<^verbatim>\<open>%m\<close> takes \<^verbatim>\<open>1[0-2]|0[1-9]|[1-9]\<close> and \<^verbatim>\<open>%d\<close> takes
  \<^verbatim>\<open>3[01]|[12]\d|0[1-9]|[1-9]| [1-9]\<close>; the whole string must be consumed and the
  fields must name a day that exists, otherwise \<^verbatim>\<open>ValueError\<close>.
\<close>

definition is_digit :: "char \<Rightarrow> bool" where
  "is_digit c = (c \<in> set ''0123456789'')"

definition digit_val :: "char \<Rightarrow> nat" where
  "digit_val c = of_char c - 48"

fun parse_month :: "string \<Rightarrow> nat option" where
  "parse_month [a] = (if is_digit a \<and> a \<noteq> CHR ''0'' then Some (digit_val a) else None)"
| "parse_month [a, b] =
     (if a = CHR ''1'' \<and> b \<in> set ''012'' then Some (10 + digit_val b)
      else if a = CHR ''0'' \<and> is_digit b \<and> b \<noteq> CHR ''0'' then Some (digit_val b)
      else None)"
| "parse_month _ = None"

fun parse_day :: "string \<Rightarrow> nat option" where
  "parse_day [a] = (if is_digit a \<and> a \<noteq> CHR ''0'' then Some (digit_val a) else None)"
| "parse_day [a, b] =
     (if a = CHR ''3'' \<and> b \<in> set ''01'' then Some (30 + digit_val b)
      else if a \<in> set ''12'' \<and> is_digit b then Some (10 * digit_val a + digit_val b)
      else if (a = CHR ''0'' \<or> a = CHR '' '') \<and> is_digit b \<and> b \<noteq> CHR ''0''
      then Some (digit_val b)
      else None)"
| "parse_day _ = None"

definition strptime :: "string \<Rightarrow> exn + date" where
  "strptime s =
     (case s of
        y1 # y2 # y3 # y4 # sep # rest \<Rightarrow>
          if is_digit y1 \<and> is_digit y2 \<and> is_digit y3 \<and> is_digit y4 \<and> sep = CHR ''-''
          then
            (let y = 1000 * digit_val y1 + 100 * digit_val y2 + 10 * digit_val y3 + digit_val y4;
                 mtok = takeWhile (\<lambda>c. c \<noteq> CHR ''-'') rest
             in case dropWhile (\<lambda>c. c \<noteq> CHR ''-'') rest of
                  [] \<Rightarrow> Inl ValueError
                | _ # dtok \<Rightarrow>
                    (case parse_month mtok of None \<Rightarrow> Inl ValueError | Some m \<Rightarrow>
                    (case parse_day dtok of None \<Rightarrow> Inl ValueError | Some d \<Rightarrow>
                       if 1 \<le> y \<and> d \<le> days_in_month y m then Inr (Date y m d)
                       else Inl ValueError)))
          else Inl ValueError
      | _ \<Rightarrow> Inl ValueError)"

text \<open>\<^verbatim>\<open>d + timedelta(days=1)\<close>: the day after, \<^verbatim>\<open>OverflowError\<close> past 9999-12-31.\<close>

definition add_one_day :: "date \<Rightarrow> exn + date" where
  "add_one_day d =
     (if day d < days_in_month (year d) (month d) then Inr (Date (year d) (month d) (day d + 1))
      else if month d < 12 then Inr (Date (year d) (month d + 1) 1)
      else if year d < 9999 then Inr (Date (year d + 1) 1 1)
      else Inl OverflowError)"

text \<open>
  \<^verbatim>\<open>d.strftime("%Y-%m-%d")\<close> as CPython 3.11 prints it with the GNU C library: month and
  day have two digits, and the year is printed without padding, so that a year below 1000
  has fewer than four digits and \<^verbatim>\<open>strptime\<close> does not read it back.
\<close>

definition pad2 :: "nat \<Rightarrow> string" where
  "pad2 n = [digit_char (n div 10), digit_char (n mod 10)]"

definition strftime :: "date \<Rightarrow> string" where
  "strftime d = show_nat (year d) @ ''-'' @ pad2 (month d) @ ''-'' @ pad2 (day d)"

text \<open>
  Line 101 of \<^verbatim>\<open>ai-4.py\<close>:
  \<^verbatim>\<open>(datetime.strptime(start_date, "%Y-%m-%d") + timedelta(days=1)).strftime("%Y-%m-%d")\<close>
\<close>

definition next_date_string :: "string \<Rightarrow> exn + string" where
  "next_date_string start_date =
     (case strptime start_date of Inl x \<Rightarrow> Inl x | Inr d \<Rightarrow>
     (case add_one_day d of Inl x \<Rightarrow> Inl x | Inr d1 \<Rightarrow> Inr (strftime d1)))"


definition date_ok :: "date \<Rightarrow> bool" where
  "date_ok d =
     (1 \<le> year d \<and> year d \<le> 9999 \<and> 1 \<le> month d \<and> month d \<le> 12 \<and> 1 \<le> day d
      \<and> day d \<le> days_in_month (year d) (month d))"

definition days_left :: "date \<Rightarrow> nat" where
  "days_left d = (9999 - year d) * 372 + (12 - month d) * 31 + (31 - day d)"

definition steps_left :: "string \<Rightarrow> nat" where
  "steps_left s = (case strptime s of Inl _ \<Rightarrow> 0 | Inr d \<Rightarrow> days_left d)"


section \<open>The tool of \<^verbatim>\<open>ai-4.py\<close>\<close>

text \<open>
  The three nested functions close over the arguments \<^verbatim>\<open>start_date\<close>,
  \<^verbatim>\<open>end_date\<close> and \<^verbatim>\<open>top_n\<close> of the tool; they come first in each model.
  \<^verbatim>\<open>
  def fetch_data(date):
      url = f"https://api.sectors.app/v1/most-traded/?start={start_date}&end={end_date}&n_stock={top_n}"
      return retrieve_from_endpoint(url)
  \<close>
  The name \<^verbatim>\<open>start_date\<close> in the body of \<^verbatim>\<open>fetch_data\<close> is the tool's argument:
  the function is nested in the tool, not in \<^verbatim>\<open>get_next_available_date\<close>, whose own
  parameter of the same name it cannot see. Its parameter \<^verbatim>\<open>date\<close> is not used.
\<close>

definition fetch_data ::
    "env \<Rightarrow> string \<Rightarrow> string \<Rightarrow> int \<Rightarrow> string \<Rightarrow> log \<Rightarrow> (exn + json_text) \<times> log" where
  "fetch_data e start_date end_date top_n date lg =
     (let url = most_traded_url start_date end_date top_n in retrieve_from_endpoint e url lg)"

text \<open>
  The body of the \<^verbatim>\<open>try\<close> block, where \<open>date\<close> is the loop's current
  \<^verbatim>\<open>start_date\<close>:
  \<^verbatim>\<open>
  data = fetch_data(start_date)
  return start_date, aggregate_volumes(data)
  \<close>
\<close>

definition try_block ::
    "env \<Rightarrow> string \<Rightarrow> string \<Rightarrow> int \<Rightarrow> string \<Rightarrow> log
      \<Rightarrow> (exn + string \<times> company_volumes) \<times> log" where
  "try_block e start_date end_date top_n date lg =
     (let (r, lg1) = fetch_data e start_date end_date top_n date lg
      in case r of
           Inl x \<Rightarrow> (Inl x, lg1)
         | Inr data \<Rightarrow>
             (case aggregate_volumes data top_n of
                Inl x \<Rightarrow> (Inl x, lg1)
              | Inr a \<Rightarrow> (Inr (date, a), lg1)))"

text \<open>
  \<^verbatim>\<open>
  def get_next_available_date(start_date):
      while True:
          try:
              data = fetch_data(start_date)
              return start_date, aggregate_volumes(data)
          except Exception:
              start_date = (datetime.strptime(start_date, "%Y-%m-%d")
                            + timedelta(days=1)).strftime("%Y-%m-%d")
  \<close>
  \<^verbatim>\<open>except Exception\<close> lets \<^verbatim>\<open>SystemExit\<close> through, and an exception raised by the
  handler itself leaves the loop.
\<close>

function get_next_available_date ::
    "env \<Rightarrow> string \<Rightarrow> string \<Rightarrow> int \<Rightarrow> string \<Rightarrow> log
      \<Rightarrow> (exn + string \<times> company_volumes) \<times> log" where
  "get_next_available_date e start_date end_date top_n date lg =
     (case try_block e start_date end_date top_n date lg of
        (Inr v, lg1) \<Rightarrow> (Inr v, lg1)
      | (Inl x, lg1) \<Rightarrow>
          if is_Exception x
          then (case next_date_string date of
                  Inl y \<Rightarrow> (Inl y, lg1)
                | Inr date1 \<Rightarrow> get_next_available_date e start_date end_date top_n date1 lg1)
          else (Inl x, lg1))"
  by pat_completeness auto

text \<open>
  \<^verbatim>\<open>
  valid_date, company_data = get_next_available_date(start_date)
  result = f"Here is the top companies by transaction volume for {valid_date}:\n"
  ...
  return result
  \<close>
\<close>

definition get_top_companies_by_tx_volume_4 ::
    "env \<Rightarrow> string \<Rightarrow> string \<Rightarrow> int \<Rightarrow> log \<Rightarrow> (exn + string) \<times> log" where
  "get_top_companies_by_tx_volume_4 e start_date end_date top_n lg =
     (case get_next_available_date e start_date end_date top_n start_date lg of
        (Inl x, lg1) \<Rightarrow> (Inl x, lg1)
      | (Inr (valid_date, company_data), lg1) \<Rightarrow> (format_table_4 valid_date company_data, lg1))"

section \<open>Example environments\<close>

text \<open>A network that answers every request alike, and one that answers from a script.\<close>

definition always :: "outcome \<Rightarrow> nat \<Rightarrow> request \<Rightarrow> outcome" where
  "always r n rq = r"

fun in_turn :: "outcome list \<Rightarrow> nat \<Rightarrow> request \<Rightarrow> outcome" where
  "in_turn [] n rq = Raised ConnectionError"
| "in_turn (r # rs) 0 rq = r"
| "in_turn (r # rs) (Suc n) rq = in_turn rs n rq"

section \<open>What the aggregator is expected to compute\<close>

text \<open>
  The records that the two loops visit, in order, and the three fields that the loop body
  reads from a record: the dictionary key made from \<^verbatim>\<open>company_name\<close>, the integer
  added for \<^verbatim>\<open>volume\<close>, and \<^verbatim>\<open>symbol\<close>.
\<close>

definition day_records :: "json \<Rightarrow> json list" where
  "day_records companies = (case py_iter companies of Inl _ \<Rightarrow> [] | Inr cs \<Rightarrow> cs)"

definition records_of :: "json \<Rightarrow> json list" where
  "records_of data_dict =
     (case py_values data_dict of Inl _ \<Rightarrow> [] | Inr days \<Rightarrow> concat (map day_records days))"

definition name_key :: "json \<Rightarrow> json" where
  "name_key company =
     (case py_getitem company ''company_name'' of Inl _ \<Rightarrow> JNull
      | Inr name \<Rightarrow> (case py_hash_key name of Inl _ \<Rightarrow> JNull | Inr k \<Rightarrow> k))"

definition volume_of :: "json \<Rightarrow> int" where
  "volume_of company =
     (case py_getitem company ''volume'' of Inl _ \<Rightarrow> 0
      | Inr v \<Rightarrow> (case py_add 0 v of Inl _ \<Rightarrow> 0 | Inr n \<Rightarrow> n))"

definition symbol_of :: "json \<Rightarrow> json" where
  "symbol_of company = (case py_getitem company ''symbol'' of Inl _ \<Rightarrow> JNull | Inr s \<Rightarrow> s)"

text \<open>
  The aggregation as the specification words it: one entry per distinct company name, in
  the order in which the names are first seen; its symbol is the one of the first record
  with that name and its total is the sum of the volumes of all records with that name.
\<close>

definition first_seen :: "'a list \<Rightarrow> 'a list" where
  "first_seen xs = rev (remdups (rev xs))"

definition expected_entry :: "json list \<Rightarrow> json \<Rightarrow> entry" where
  "expected_entry recs k =
     (let mine = filter (\<lambda>c. name_key c = k) recs
      in \<lparr>symbol = (case mine of [] \<Rightarrow> JNull | c # _ \<Rightarrow> symbol_of c),
          total_volume = sum_list (map volume_of mine)\<rparr>)"

definition expected_volumes :: "json list \<Rightarrow> company_volumes" where
  "expected_volumes recs = map (\<lambda>k. (k, expected_entry recs k)) (first_seen (map name_key recs))"

definition sum_totals :: "company_volumes \<Rightarrow> int" where
  "sum_totals cv = sum_list (map (\<lambda>item. total_volume (snd item)) cv)"

text \<open>
  A document of the shape the data model describes: an object whose values are lists of
  objects with a string \<^verbatim>\<open>company_name\<close>, a string \<^verbatim>\<open>symbol\<close> and an integer
  \<^verbatim>\<open>volume\<close> (other members are allowed).
\<close>

definition well_typed_record :: "json \<Rightarrow> bool" where
  "well_typed_record c =
     (case py_getitem c ''company_name'' of
        Inr (JStr _) \<Rightarrow>
          (case py_getitem c ''symbol'' of
             Inr (JStr _) \<Rightarrow>
               (case py_getitem c ''volume'' of Inr (JNum _) \<Rightarrow> True | _ \<Rightarrow> False)
           | _ \<Rightarrow> False)
      | _ \<Rightarrow> False)"

definition well_typed_day :: "json \<Rightarrow> bool" where
  "well_typed_day d = (case d of JArr cs \<Rightarrow> list_all well_typed_record cs | _ \<Rightarrow> False)"

definition well_typed :: "json \<Rightarrow> bool" where
  "well_typed data_dict =
     (case py_values data_dict of Inl _ \<Rightarrow> False | Inr days \<Rightarrow> list_all well_typed_day days)"

text \<open>The effect of one pass of the loop body on the dictionary.\<close>

definition count_record :: "company_volumes \<Rightarrow> json \<Rightarrow> company_volumes" where
  "count_record cv c =
     (case map_of cv (name_key c) of
        None \<Rightarrow> cv @ [(name_key c, \<lparr>symbol = symbol_of c, total_volume = volume_of c\<rparr>)]
      | Some en \<Rightarrow>
          AList.update (name_key c) (en\<lparr>total_volume := total_volume en + volume_of c\<rparr>) cv)"

text \<open>The ranking: the expected dictionary, sorted and cut.\<close>

definition ranked :: "json \<Rightarrow> int \<Rightarrow> company_volumes" where
  "ranked data top_n =
     py_slice_to (py_sorted_reverse (\<lambda>item. total_volume (snd item))
                    (expected_volumes (records_of data))) top_n"

text \<open>Documents used as examples.\<close>

definition tx_record :: "string \<Rightarrow> string \<Rightarrow> int \<Rightarrow> json" where
  "tx_record name ticker vol =
     JObj [(''symbol'', JStr ticker), (''company_name'', JStr name), (''volume'', JNum vol)]"

definition two_days_doc :: json where
  "two_days_doc =
     JObj [(''2024-01-02'', JArr [tx_record ''A'' ''AAA'' 100]),
           (''2024-01-03'', JArr [tx_record ''A'' ''AAA'' 50])]"

definition three_companies_doc :: json where
  "three_companies_doc =
     JObj [(''2024-01-02'',
            JArr [tx_record ''Y'' ''YYY'' 200, tx_record ''X'' ''XXX'' 300,
                  tx_record ''Z'' ''ZZZ'' 100])]"

definition ties_doc :: json where
  "ties_doc =
     JObj [(''2024-01-02'',
            JArr [tx_record ''A'' ''AAA'' 100, tx_record ''B'' ''BBB'' 200,
                  tx_record ''C'' ''CCC'' 60]),
           (''2024-01-03'', JArr [tx_record ''C'' ''CCC'' 40])]"

text \<open>The data rows of a table, without the accumulator of the loop.\<close>

fun rows_text :: "company_volumes \<Rightarrow> exn + string" where
  "rows_text [] = Inr []"
| "rows_text (item # rest) =
     (case table_row item of Inl x \<Rightarrow> Inl x
      | Inr row \<Rightarrow> (case rows_text rest of Inl x \<Rightarrow> Inl x | Inr body \<Rightarrow> Inr (row @ body)))"

text \<open>An environment whose server answers every request with the same document.\<close>

definition serving :: "json \<Rightarrow> env" where
  "serving doc =
     \<lparr>SECTORS_API_KEY = Some ''key'', network = always (Returned (Response 200 ''OK'' (Some doc)))\<rparr>"

section \<open>One attempt of the resolver\<close>

text \<open>
  The only request that the tool ever builds, and what one pass through the
  \<^verbatim>\<open>try\<close> block makes of the outcome of that request.
\<close>

definition tool_request :: "env \<Rightarrow> string \<Rightarrow> string \<Rightarrow> int \<Rightarrow> request" where
  "tool_request e start_date end_date top_n =
     Request (most_traded_url start_date end_date top_n) (SECTORS_API_KEY e)"

definition answer :: "string \<Rightarrow> int \<Rightarrow> string \<Rightarrow> outcome \<Rightarrow> exn + string \<times> company_volumes" where
  "answer url top_n date out =
     (case out of
        Raised x \<Rightarrow> Inl (RequestException x)
      | Returned r \<Rightarrow>
          if 400 \<le> status_code r \<and> status_code r < 600
          then Inl (SystemExit (HTTPError (status_code r) (reason r) url))
          else (case json_body r of
                  None \<Rightarrow> Inl JSONDecodeError
                | Some data \<Rightarrow>
                    (case aggregate_volumes (json_dumps data) top_n of
                       Inl x \<Rightarrow> Inl x
                     | Inr a \<Rightarrow> Inr (date, a))))"

text \<open>An outcome that sends the loop into its handler and on to the next date.\<close>

definition retried :: "string \<Rightarrow> int \<Rightarrow> outcome \<Rightarrow> bool" where
  "retried url top_n out =
     (case answer url top_n [] out of Inl x \<Rightarrow> is_Exception x | Inr _ \<Rightarrow> False)"

text \<open>The number of days after a date, up to 9999-12-31.\<close>

function days_to_max :: "date \<Rightarrow> nat" where
  "days_to_max d =
     (if date_ok d
      then (case add_one_day d of Inl _ \<Rightarrow> 0 | Inr d1 \<Rightarrow> Suc (days_to_max d1))
      else 0)"
  by pat_completeness auto

text \<open>A server that has data for one URL only and refuses every other connection.\<close>

definition only_url :: "string \<Rightarrow> json \<Rightarrow> nat \<Rightarrow> request \<Rightarrow> outcome" where
  "only_url url doc n rq =
     (if req_url rq = url then Returned (Response 200 ''OK'' (Some doc))
      else Raised ConnectionError)"

text \<open>
  The proleptic Gregorian ordinal of a date, as \<^verbatim>\<open>date.toordinal\<close> computes it
  (1 for 0001-01-01, 3652059 for 9999-12-31).
\<close>

definition days_before_year :: "nat \<Rightarrow> nat" where
  "days_before_year y = (y - 1) * 365 + (y - 1) div 4 - (y - 1) div 100 + (y - 1) div 400"

definition days_before_month :: "nat \<Rightarrow> nat \<Rightarrow> nat" where
  "days_before_month y m =
     [0, 31, 59, 90, 120, 151, 181, 212, 243, 273, 304, 334] ! (m - 1)
       + (if 2 < m \<and> is_leap y then 1 else 0)"

definition toordinal :: "date \<Rightarrow> nat" where
  "toordinal d = days_before_year (year d) + days_before_month (year d) (month d) + day d"

text \<open>Environments used as examples: a scripted server and one that cannot be reached.\<close>

definition scripted :: "outcome list \<Rightarrow> env" where
  "scripted outs = \<lparr>SECTORS_API_KEY = Some ''key'', network = in_turn outs\<rparr>"

definition unreachable :: env where
  "unreachable = \<lparr>SECTORS_API_KEY = Some ''key'', network = always (Raised Timeout)\<rparr>"

definition serving_only :: "string \<Rightarrow> json \<Rightarrow> env" where
  "serving_only url doc = \<lparr>SECTORS_API_KEY = Some ''key'', network = only_url url doc\<rparr>"

section \<open>Dates: parsing, printing and the day after\<close>

lemma digit_cases: "k < 10 \<Longrightarrow> k = 0 \<or> k = 1 \<or> k = 2 \<or> k = 3 \<or> k = 4 \<or> k = 5 \<or> k = 6 \<or> k = 7 \<or> k = 8 \<or> k = (9::nat)"
  by arith

lemma is_digit_digit_char: "k < 10 \<Longrightarrow> is_digit (digit_char k)"
  using digit_cases [of k] by (auto simp: is_digit_def digit_char_def)

lemma digit_val_digit_char: "k < 10 \<Longrightarrow> digit_val (digit_char k) = k"
  using digit_cases [of k] by (auto simp: digit_val_def digit_char_def)

lemma digit_char_not_dash: "k < 10 \<Longrightarrow> digit_char k \<noteq> CHR ''-''"
  using digit_cases [of k] by (auto simp: digit_char_def)

lemma is_digit_val: "is_digit c \<Longrightarrow> digit_val c \<le> 9"
  by (auto simp: is_digit_def digit_val_def)

lemma days_in_month_le: "days_in_month y m \<le> 31"
  by (simp add: days_in_month_def)

lemma days_in_month_ge: "28 \<le> days_in_month y m"
  by (simp add: days_in_month_def)

lemma parse_month_range: "parse_month t = Some m \<Longrightarrow> 1 \<le> m \<and> m \<le> 12"
  by (cases t rule: parse_month.cases) (auto simp: is_digit_def digit_val_def split: if_splits)

lemma parse_day_range: "parse_day t = Some d \<Longrightarrow> 1 \<le> d"
  by (cases t rule: parse_day.cases) (auto simp: is_digit_def digit_val_def split: if_splits)

lemma strptime_valid: "strptime s = Inr d \<Longrightarrow> date_ok d"
  by (auto simp: strptime_def date_ok_def Let_def dest!: parse_month_range parse_day_range is_digit_val
           split: list.splits if_splits option.splits)

lemma parse_month_pad2_all: "list_all (\<lambda>m. parse_month (pad2 m) = Some m) [1..<13]"
  by code_simp

lemma parse_day_pad2_all: "list_all (\<lambda>d. parse_day (pad2 d) = Some d) [1..<32]"
  by code_simp

lemma parse_month_pad2: "1 \<le> m \<Longrightarrow> m \<le> 12 \<Longrightarrow> parse_month (pad2 m) = Some m"
  using parse_month_pad2_all by (simp add: list_all_iff)

lemma parse_day_pad2: "1 \<le> d \<Longrightarrow> d \<le> 31 \<Longrightarrow> parse_day (pad2 d) = Some d"
  using parse_day_pad2_all by (simp add: list_all_iff)

lemma pad2_no_dash: "n < 100 \<Longrightarrow> takeWhile (\<lambda>c. c \<noteq> CHR ''-'') (pad2 n @ CHR ''-'' # r) = pad2 n
   \<and> dropWhile (\<lambda>c. c \<noteq> CHR ''-'') (pad2 n @ CHR ''-'' # r) = CHR ''-'' # r"
  by (simp add: pad2_def digit_char_not_dash)

lemma four_digits:
  "1000 * (y div 1000) + 100 * (y div 100 mod 10) + 10 * (y div 10 mod 10) + y mod 10 = (y::nat)"
proof -
  have h: "y div 10 div 10 = y div 100" "y div 100 div 10 = y div 1000"
    by (simp_all add: div_mult2_eq [symmetric])
  have a: "y = 10 * (y div 10) + y mod 10" by simp
  have b: "y div 10 = 10 * (y div 100) + y div 10 mod 10"
    using div_mult_mod_eq [of "y div 10" 10] h by simp
  have c: "y div 100 = 10 * (y div 1000) + y div 100 mod 10"
    using div_mult_mod_eq [of "y div 100" 10] h by simp
  from a b c show ?thesis by linarith
qed

lemma show_nat_digit: "n < 10 \<Longrightarrow> show_nat n = [digit_char n]"
  by (subst show_nat.simps) simp

lemma show_nat_more: "10 \<le> n \<Longrightarrow> show_nat n = show_nat (n div 10) @ [digit_char (n mod 10)]"
  by (subst show_nat.simps) simp

lemma show_nat_year:
  assumes "1000 \<le> y" "y \<le> 9999"
  shows "show_nat y = [digit_char (y div 1000), digit_char (y div 100 mod 10),
                       digit_char (y div 10 mod 10), digit_char (y mod 10)]"
proof -
  have h: "y div 10 div 10 = y div 100" "y div 100 div 10 = y div 1000"
    by (simp_all add: div_mult2_eq [symmetric])
  from assms have "10 \<le> y" "10 \<le> y div 10" "10 \<le> y div 100" "y div 1000 < 10" by simp_all
  then show ?thesis
    using show_nat_more [of y] show_nat_more [of "y div 10"] show_nat_more [of "y div 100"]
      show_nat_digit [of "y div 1000"]
    by (simp add: h)
qed

lemma show_nat_short:
  assumes "y < 1000"
  shows "(\<exists>a. show_nat y = [a]) \<or> (\<exists>a b. show_nat y = [a, b]) \<or> (\<exists>a b c. show_nat y = [a, b, c])"
proof -
  have h: "y div 10 div 10 = y div 100" by (simp add: div_mult2_eq [symmetric])
  consider "y < 10" | "10 \<le> y" "y < 100" | "100 \<le> y" by linarith
  then show ?thesis
  proof cases
    case 1
    then show ?thesis by (simp add: show_nat_digit)
  next
    case 2
    then have "y div 10 < 10" by simp
    with 2 show ?thesis by (simp add: show_nat_more [of y] show_nat_digit)
  next
    case 3
    with assms have "10 \<le> y" "10 \<le> y div 10" "y div 100 < 10" by simp_all
    then show ?thesis
      using show_nat_more [of y] show_nat_more [of "y div 10"] show_nat_digit [of "y div 100"]
      by (simp add: h)
  qed
qed

lemma strptime_Inl: "strptime s = Inl y \<Longrightarrow> y = ValueError"
  by (auto simp: strptime_def Let_def split: list.splits if_splits option.splits)

lemma strptime_year_digits:
  "strptime s = Inr d \<Longrightarrow> is_digit (s ! 1) \<and> is_digit (s ! 2) \<and> is_digit (s ! 3)"
  by (auto simp: strptime_def Let_def split: list.splits if_splits option.splits)

lemma strptime_short_year:
  assumes "y < 1000"
  shows "strptime (show_nat y @ CHR ''-'' # rest) = Inl ValueError"
proof (cases "strptime (show_nat y @ CHR ''-'' # rest)")
  case (Inl x)
  with strptime_Inl [OF Inl] show ?thesis by simp
next
  case (Inr d)
  have no: "\<not> is_digit CHR ''-''" by (simp add: is_digit_def)
  from show_nat_short [OF assms]
  have "(show_nat y @ CHR ''-'' # rest) ! 1 = CHR ''-''
      \<or> (show_nat y @ CHR ''-'' # rest) ! 2 = CHR ''-''
      \<or> (show_nat y @ CHR ''-'' # rest) ! 3 = CHR ''-''"
    by (auto simp: numeral_2_eq_2 numeral_3_eq_3)
  with strptime_year_digits [OF Inr] no show ?thesis by auto
qed

lemma strptime_strftime:
  assumes "date_ok d" "1000 \<le> year d"
  shows "strptime (strftime d) = Inr d"
proof -
  obtain y m dd where d: "d = Date y m dd" by (cases d)
  from assms d have y: "1000 \<le> y" "y \<le> 9999" and m: "1 \<le> m" "m \<le> 12"
    and dd: "1 \<le> dd" "dd \<le> days_in_month y m"
    by (simp_all add: date_ok_def)
  from dd days_in_month_le [of y m] have dd31: "dd \<le> 31" by linarith
  have y1: "y div 1000 < 10" using y by simp
  have pm: "parse_month (pad2 m) = Some m" using m by (rule parse_month_pad2)
  have pd: "parse_day (pad2 dd) = Some dd" using dd(1) dd31 by (rule parse_day_pad2)
  have m100: "m < 100" using m by simp
  show ?thesis
    unfolding d strftime_def strptime_def
    using y dd four_digits [of y] pm pd pad2_no_dash [OF m100, of "pad2 dd"] y1
    by (simp add: show_nat_year is_digit_digit_char digit_val_digit_char)
qed

lemma strptime_strftime_short: "year d < 1000 \<Longrightarrow> strptime (strftime d) = Inl ValueError"
  by (simp add: strftime_def strptime_short_year)

lemma add_one_day_valid:
  "date_ok d \<Longrightarrow> add_one_day d = Inr d1 \<Longrightarrow> date_ok d1 \<and> days_left d1 < days_left d"
  using days_in_month_le [of "year d" "month d"] days_in_month_ge [of "year d" "Suc (month d)"]
    days_in_month_ge [of "Suc (year d)" 1]
  by (auto simp: add_one_day_def date_ok_def days_left_def split: if_splits)

lemma next_date_string_decreases:
  assumes "next_date_string s = Inr s1"
  shows "steps_left s1 < steps_left s"
proof -
  from assms obtain d d1 where p: "strptime s = Inr d" and a: "add_one_day d = Inr d1"
    and s1: "s1 = strftime d1"
    by (auto simp: next_date_string_def split: sum.splits)
  from p have "date_ok d" by (rule strptime_valid)
  with a have ok: "date_ok d1" and less: "days_left d1 < days_left d"
    using add_one_day_valid by blast+
  show ?thesis
  proof (cases "1000 \<le> year d1")
    case True
    with ok less show ?thesis by (simp add: steps_left_def p s1 strptime_strftime)
  next
    case False
    with less show ?thesis by (simp add: steps_left_def p s1 strptime_strftime_short)
  qed
qed

text \<open>
  The loop cannot run forever: every pass through the handler either leaves the loop or
  moves the date one day closer to 9999-12-31.
\<close>

termination get_next_available_date
  by (relation "measure (\<lambda>(e, start_date, end_date, top_n, date, lg). steps_left date)")
     (auto dest: next_date_string_decreases)

declare get_next_available_date.simps [simp del]

section \<open>The endpoint client: failures\<close>

text \<open>
  Claim C5, as the code has it. The client issues exactly one request per call, whatever
  the outcome, so nothing is retried. A response with a status from 400 to 599 makes it
  raise \<^verbatim>\<open>SystemExit\<close> around the \<^verbatim>\<open>HTTPError\<close> that carries the status code, the
  reason phrase and the URL; a transport failure comes out as the exception that
  \<^verbatim>\<open>requests.get\<close> raised; any other status, 2xx or not, passes the status check and
  the body alone decides the result.
\<close>

theorem retrieve_from_endpoint_outcomes:
  fixes e url lg
  defines "rq \<equiv> Request url (SECTORS_API_KEY e)"
  shows "snd (retrieve_from_endpoint e url lg) = lg @ [rq]
    \<and> (\<forall>r. network e (length lg) rq = Returned r \<and> 400 \<le> status_code r \<and> status_code r < 600
          \<longrightarrow> fst (retrieve_from_endpoint e url lg)
                = Inl (SystemExit (HTTPError (status_code r) (reason r) url)))
    \<and> (\<forall>x. network e (length lg) rq = Raised x
          \<longrightarrow> fst (retrieve_from_endpoint e url lg) = Inl (RequestException x))
    \<and> (\<forall>r. network e (length lg) rq = Returned r \<and> \<not> (400 \<le> status_code r \<and> status_code r < 600)
          \<longrightarrow> fst (retrieve_from_endpoint e url lg)
                = (case json_body r of None \<Rightarrow> Inl JSONDecodeError
                   | Some d \<Rightarrow> Inr (json_dumps d)))"
  unfolding rq_def
  by (simp add: retrieve_from_endpoint_def requests_get_def raise_for_status_def
        response_json_def Let_def split: outcome.splits option.splits)

text \<open>
  The three cases of the statement above at concrete inputs: a 404, a timeout and a 200.
\<close>

theorem retrieve_from_endpoint_witness:
  "fst (retrieve_from_endpoint
          \<lparr>SECTORS_API_KEY = None,
           network = in_turn [Returned (Response 404 ''Not Found'' None), Raised Timeout,
                              Returned (Response 200 ''OK'' (Some (JObj [])))]\<rparr> ''u'' [])
     = Inl (SystemExit (HTTPError 404 ''Not Found'' ''u''))
   \<and> fst (retrieve_from_endpoint
          \<lparr>SECTORS_API_KEY = None,
           network = in_turn [Returned (Response 404 ''Not Found'' None), Raised Timeout,
                              Returned (Response 200 ''OK'' (Some (JObj [])))]\<rparr> ''u''
          [Request ''u'' None])
     = Inl (RequestException Timeout)
   \<and> fst (retrieve_from_endpoint
          \<lparr>SECTORS_API_KEY = None,
           network = in_turn [Returned (Response 404 ''Not Found'' None), Raised Timeout,
                              Returned (Response 200 ''OK'' (Some (JObj [])))]\<rparr> ''u''
          [Request ''u'' None, Request ''u'' None])
     = Inr (Dumped (JObj []))"
  using retrieve_from_endpoint_outcomes [of "\<lparr>SECTORS_API_KEY = None,
           network = in_turn [Returned (Response 404 ''Not Found'' None), Raised Timeout,
                              Returned (Response 200 ''OK'' (Some (JObj [])))]\<rparr>" "''u''" "[]"]
    retrieve_from_endpoint_outcomes [of "\<lparr>SECTORS_API_KEY = None,
           network = in_turn [Returned (Response 404 ''Not Found'' None), Raised Timeout,
                              Returned (Response 200 ''OK'' (Some (JObj [])))]\<rparr>" "''u''" "[Request ''u'' None]"]
    retrieve_from_endpoint_outcomes [of "\<lparr>SECTORS_API_KEY = None,
           network = in_turn [Returned (Response 404 ''Not Found'' None), Raised Timeout,
                              Returned (Response 200 ''OK'' (Some (JObj [])))]\<rparr>" "''u''" "[Request ''u'' None, Request ''u'' None]"]
  by (simp add: json_dumps_def numeral_2_eq_2)

text \<open>
  Claim C5 as the specification words it, "every non-2xx response fails", does not hold:
  a 300 response with a JSON body passes \<^verbatim>\<open>raise_for_status\<close> and is returned as data.
\<close>

theorem retrieve_from_endpoint_counterexample:
  "retrieve_from_endpoint
     \<lparr>SECTORS_API_KEY = Some ''key'',
      network = always (Returned (Response 300 ''Multiple Choices'' (Some (JObj []))))\<rparr>
     ''https://api.sectors.app/v1/most-traded/?start=2024-01-02&end=2024-01-02&n_stock=5'' []
   = (Inr (Dumped (JObj [])),
      [Request ''https://api.sectors.app/v1/most-traded/?start=2024-01-02&end=2024-01-02&n_stock=5''
         (Some ''key'')])"
  by (simp add: retrieve_from_endpoint_def requests_get_def raise_for_status_def
        response_json_def json_dumps_def always_def)

section \<open>The volume aggregator: what it computes\<close>

subsection \<open>Dictionary updates\<close>

lemma update_new: "map_of al k = None \<Longrightarrow> AList.update k v al = al @ [(k, v)]"
  by (induction al) (auto split: if_splits)

lemma map_of_snoc_new: "map_of al k = None \<Longrightarrow> map_of (al @ [(k, v)]) k = Some v"
  by (induction al) (auto split: if_splits)

lemma update_snoc_new: "map_of al k = None \<Longrightarrow> AList.update k w (al @ [(k, v)]) = al @ [(k, w)]"
  by (induction al) (auto split: if_splits)

lemma py_add_zero: "py_add t v = Inr n \<Longrightarrow> py_add 0 v = Inr (n - t)"
  by (cases v) auto

lemma add_company_Inr:
  assumes "add_company cv c = Inr cv1"
  shows "cv1 = count_record cv c"
proof -
  from assms obtain name volume k where
    n: "py_getitem c ''company_name'' = Inr name" and v: "py_getitem c ''volume'' = Inr volume"
    and k: "py_hash_key name = Inr k"
    by (auto simp: add_company_def split: sum.splits)
  have nk: "name_key c = k" by (simp add: name_key_def n k)
  show ?thesis
  proof (cases "map_of cv k")
    case None
    with assms n v k obtain s t where s: "py_getitem c ''symbol'' = Inr s"
      and t: "py_add 0 volume = Inr t"
      and r: "cv1 = cv @ [(k, \<lparr>symbol = s, total_volume = t\<rparr>)]"
      by (auto simp: add_company_def update_new update_snoc_new map_add_def
          split: sum.splits)
    then show ?thesis
      by (simp add: count_record_def nk None symbol_of_def volume_of_def v)
  next
    case (Some en)
    with assms n v k obtain t where t: "py_add (total_volume en) volume = Inr t"
      and r: "cv1 = AList.update k (en\<lparr>total_volume := t\<rparr>) cv"
      by (auto simp: add_company_def split: sum.splits)
    from py_add_zero [OF t] have "volume_of c = t - total_volume en"
      by (simp add: volume_of_def v)
    then show ?thesis by (simp add: count_record_def nk Some r)
  qed
qed

lemma add_company_well_typed:
  assumes "well_typed_record c"
  shows "add_company cv c = Inr (count_record cv c)"
proof -
  from assms obtain name s n where
    n: "py_getitem c ''company_name'' = Inr (JStr name)" and s: "py_getitem c ''symbol'' = Inr (JStr s)"
    and v: "py_getitem c ''volume'' = Inr (JNum n)"
    by (auto simp: well_typed_record_def split: sum.splits json.splits)
  show ?thesis
    by (cases "map_of cv (JStr name)")
       (simp_all add: add_company_def count_record_def name_key_def volume_of_def symbol_of_def
          n s v update_new update_snoc_new map_add_def)
qed

subsection \<open>The expected dictionary, one record at a time\<close>

lemma first_seen_snoc:
  "first_seen (xs @ [x]) = (if x \<in> set xs then first_seen xs else first_seen xs @ [x])"
  by (simp add: first_seen_def)

lemma set_first_seen: "set (first_seen xs) = set xs"
  by (simp add: first_seen_def)

lemma distinct_first_seen: "distinct (first_seen xs)"
  by (simp add: first_seen_def)

lemma map_of_expected:
  "map_of (expected_volumes recs) k =
     (if k \<in> set (map name_key recs) then Some (expected_entry recs k) else None)"
  unfolding expected_volumes_def
  by (simp add: map_of_map_restrict restrict_map_def set_first_seen)

lemma update_map_keys:
  "k \<in> set ks \<Longrightarrow> distinct ks \<Longrightarrow>
   AList.update k v (map (\<lambda>x. (x, f x)) ks) = map (\<lambda>x. (x, if x = k then v else f x)) ks"
proof (induction ks)
  case Nil
  then show ?case by simp
next
  case (Cons a ks)
  show ?case
  proof (cases "a = k")
    case True
    with Cons.prems have "k \<notin> set ks" by simp
    then have "map (\<lambda>x. (x, if x = k then v else f x)) ks = map (\<lambda>x. (x, f x)) ks"
      by (intro map_cong) auto
    with True show ?thesis by simp
  next
    case False
    with Cons show ?thesis by simp
  qed
qed

lemma expected_entry_snoc_other:
  "name_key c \<noteq> k \<Longrightarrow> expected_entry (ps @ [c]) k = expected_entry ps k"
  by (simp add: expected_entry_def)

lemma expected_entry_snoc_new:
  assumes "name_key c \<notin> name_key ` set ps"
  shows "expected_entry (ps @ [c]) (name_key c) = \<lparr>symbol = symbol_of c, total_volume = volume_of c\<rparr>"
proof -
  from assms have "filter (\<lambda>x. name_key x = name_key c) ps = []"
    by (simp add: filter_empty_conv) (metis imageI)
  then show ?thesis by (simp add: expected_entry_def)
qed

lemma expected_entry_snoc_old:
  assumes "name_key c \<in> name_key ` set ps"
  shows "expected_entry (ps @ [c]) (name_key c)
           = (expected_entry ps (name_key c))
               \<lparr>total_volume := total_volume (expected_entry ps (name_key c)) + volume_of c\<rparr>"
proof -
  from assms have "filter (\<lambda>x. name_key x = name_key c) ps \<noteq> []"
    by (auto simp: filter_empty_conv)
  then obtain x xs where "filter (\<lambda>x. name_key x = name_key c) ps = x # xs"
    by (cases "filter (\<lambda>x. name_key x = name_key c) ps") auto
  then show ?thesis by (simp add: expected_entry_def)
qed

lemma count_record_expected:
  "count_record (expected_volumes ps) c = expected_volumes (ps @ [c])"
proof (cases "name_key c \<in> name_key ` set ps")
  case True
  then have m: "map_of (expected_volumes ps) (name_key c) = Some (expected_entry ps (name_key c))"
    by (simp add: map_of_expected)
  from True have fs: "first_seen (map name_key (ps @ [c])) = first_seen (map name_key ps)"
    by (simp add: first_seen_snoc)
  from True have k: "name_key c \<in> set (first_seen (map name_key ps))"
    by (simp add: set_first_seen)
  show ?thesis
    unfolding count_record_def m option.case
    unfolding expected_volumes_def fs update_map_keys [OF k distinct_first_seen]
    by (rule map_cong) (auto simp: expected_entry_snoc_other expected_entry_snoc_old [OF True])
next
  case False
  then have m: "map_of (expected_volumes ps) (name_key c) = None"
    by (simp add: map_of_expected)
  from False have fs: "first_seen (map name_key (ps @ [c])) = first_seen (map name_key ps) @ [name_key c]"
    by (simp add: first_seen_snoc)
  have same: "expected_entry (ps @ [c]) k = expected_entry ps k"
    if "k \<in> set (first_seen (map name_key ps))" for k
  proof -
    from that have "k \<in> name_key ` set ps" by (simp add: set_first_seen)
    with False have "name_key c \<noteq> k" by blast
    then show ?thesis by (rule expected_entry_snoc_other)
  qed
  have "map (\<lambda>k. (k, expected_entry (ps @ [c]) k)) (first_seen (map name_key ps))
          = map (\<lambda>k. (k, expected_entry ps k)) (first_seen (map name_key ps))"
    by (rule map_cong) (simp_all add: same)
  then show ?thesis
    unfolding count_record_def m option.case
    unfolding expected_volumes_def fs
    by (simp add: expected_entry_snoc_new [OF False])
qed

lemma expected_volumes_Nil: "expected_volumes [] = []"
  by (simp add: expected_volumes_def first_seen_def)

subsection \<open>The two loops\<close>

lemma inner_loop_expected:
  "inner_loop (expected_volumes ps) cs = Inr cv \<Longrightarrow> cv = expected_volumes (ps @ cs)"
proof (induction cs arbitrary: ps)
  case Nil
  then show ?case by simp
next
  case (Cons c cs)
  from Cons.prems obtain cv1 where a: "add_company (expected_volumes ps) c = Inr cv1"
    and l: "inner_loop cv1 cs = Inr cv"
    by (auto split: sum.splits)
  from add_company_Inr [OF a] have "cv1 = expected_volumes (ps @ [c])"
    by (simp add: count_record_expected)
  with l Cons.IH [of "ps @ [c]"] show ?case by simp
qed

lemma inner_loop_well_typed:
  "list_all well_typed_record cs \<Longrightarrow>
   inner_loop (expected_volumes ps) cs = Inr (expected_volumes (ps @ cs))"
proof (induction cs arbitrary: ps)
  case Nil
  then show ?case by simp
next
  case (Cons c cs)
  then have "add_company (expected_volumes ps) c = Inr (expected_volumes (ps @ [c]))"
    by (simp add: add_company_well_typed count_record_expected)
  with Cons show ?case by simp
qed

lemma outer_loop_expected:
  "outer_loop (expected_volumes ps) days = Inr cv \<Longrightarrow>
   cv = expected_volumes (ps @ concat (map day_records days))"
proof (induction days arbitrary: ps)
  case Nil
  then show ?case by simp
next
  case (Cons d days)
  from Cons.prems obtain cs cv1 where i: "py_iter d = Inr cs"
    and l: "inner_loop (expected_volumes ps) cs = Inr cv1"
    and r: "outer_loop cv1 days = Inr cv"
    by (auto split: sum.splits)
  from inner_loop_expected [OF l] have "cv1 = expected_volumes (ps @ cs)" .
  with r Cons.IH [of "ps @ cs"] i show ?case by (simp add: day_records_def)
qed

lemma outer_loop_well_typed:
  "list_all well_typed_day days \<Longrightarrow>
   outer_loop (expected_volumes ps) days
     = Inr (expected_volumes (ps @ concat (map day_records days)))"
proof (induction days arbitrary: ps)
  case Nil
  then show ?case by simp
next
  case (Cons d days)
  from Cons.prems obtain cs where d: "d = JArr cs" and cs: "list_all well_typed_record cs"
    by (auto simp: well_typed_day_def split: json.splits)
  from Cons.prems have "list_all well_typed_day days" by simp
  from Cons.IH [OF this, of "ps @ cs"] show ?case
    by (simp add: d inner_loop_well_typed [OF cs] day_records_def)
qed

lemma sum_company_volumes_expected:
  assumes "sum_company_volumes data = Inr cv"
  shows "cv = expected_volumes (records_of data)"
proof -
  from assms obtain days where v: "py_values data = Inr days" and o: "outer_loop [] days = Inr cv"
    by (auto simp: sum_company_volumes_def split: sum.splits)
  from o have "outer_loop (expected_volumes []) days = Inr cv" by (simp add: expected_volumes_Nil)
  from outer_loop_expected [OF this] show ?thesis by (simp add: records_of_def v)
qed

lemma sum_company_volumes_well_typed:
  assumes "well_typed data"
  shows "sum_company_volumes data = Inr (expected_volumes (records_of data))"
proof -
  from assms obtain days where v: "py_values data = Inr days" and w: "list_all well_typed_day days"
    by (auto simp: well_typed_def split: sum.splits)
  from outer_loop_well_typed [OF w, of "[]"] show ?thesis
    by (simp add: sum_company_volumes_def records_of_def v expected_volumes_Nil)
qed

subsection \<open>Conservation\<close>

lemma sum_totals_update:
  "map_of cv k = Some en \<Longrightarrow>
   sum_totals (AList.update k en1 cv) = sum_totals cv - total_volume en + total_volume en1"
  by (induction cv) (auto simp: sum_totals_def split: if_splits)

lemma sum_totals_count_record: "sum_totals (count_record cv c) = sum_totals cv + volume_of c"
  by (cases "map_of cv (name_key c)")
     (simp_all add: count_record_def sum_totals_update, simp add: sum_totals_def)

lemma sum_totals_expected: "sum_totals (expected_volumes recs) = sum_list (map volume_of recs)"
proof (induction recs rule: rev_induct)
  case Nil
  then show ?case by (simp add: expected_volumes_Nil sum_totals_def)
next
  case (snoc c recs)
  have "sum_totals (expected_volumes (recs @ [c])) = sum_totals (count_record (expected_volumes recs) c)"
    by (simp add: count_record_expected)
  with snoc show ?case by (simp add: sum_totals_count_record)
qed

lemma distinct_expected: "distinct (map fst (expected_volumes recs))"
  by (simp add: expected_volumes_def comp_def distinct_first_seen)

subsection \<open>Sorting and truncating\<close>

lemma py_sorted_reverse_sorted:
  "sorted_wrt (\<lambda>a b. key b \<le> key a) (py_sorted_reverse key xs)"
proof -
  have "sorted (map key (sort_key key (rev xs)))" by (rule sorted_sort_key)
  then have "sorted_wrt (\<lambda>a b. key a \<le> key b) (sort_key key (rev xs))"
    by (simp add: sorted_map)
  then show ?thesis by (simp add: py_sorted_reverse_def sorted_wrt_rev)
qed

lemma py_sorted_reverse_stable:
  "filter (\<lambda>x. key x = v) (py_sorted_reverse key xs) = filter (\<lambda>x. key x = v) xs"
  by (simp add: py_sorted_reverse_def rev_filter [symmetric] sort_key_stable)

lemma set_py_sorted_reverse: "set (py_sorted_reverse key xs) = set xs"
  by (simp add: py_sorted_reverse_def)

lemma length_py_sorted_reverse: "length (py_sorted_reverse key xs) = length xs"
  by (simp add: py_sorted_reverse_def)

lemma distinct_py_sorted_reverse:
  "distinct (map f xs) \<Longrightarrow> distinct (map f (py_sorted_reverse key xs))"
  by (simp add: distinct_map py_sorted_reverse_def)

lemma foldl_update_distinct:
  "distinct (map fst (d @ kvs)) \<Longrightarrow> foldl (\<lambda>d (k, v). AList.update k v d) d kvs = d @ kvs"
proof (induction kvs arbitrary: d)
  case Nil
  then show ?case by simp
next
  case (Cons kv kvs)
  obtain k v where kv: "kv = (k, v)" by (cases kv)
  from Cons.prems kv have "map_of d k = None" by (auto simp: map_of_eq_None_iff)
  then have u: "AList.update k v d = d @ [(k, v)]" by (rule update_new)
  from Cons.prems kv have "distinct (map fst ((d @ [(k, v)]) @ kvs))" by simp
  from Cons.IH [OF this] show ?case by (simp add: kv u)
qed

lemma dict_of_pairs_distinct: "distinct (map fst kvs) \<Longrightarrow> dict_of_pairs kvs = kvs"
  using foldl_update_distinct [of "[]" kvs] by (simp add: dict_of_pairs_def)

lemma py_slice_to_take: "\<exists>m. py_slice_to xs n = take m xs"
  by (auto simp: py_slice_to_def)

lemma length_py_slice_to: "1 \<le> n \<Longrightarrow> length (py_slice_to xs n) = min (nat n) (length xs)"
  by (simp add: py_slice_to_def min_def)

lemma dict_of_pairs_ranked: "dict_of_pairs (ranked data n) = ranked data n"
proof -
  obtain m where m: "ranked data n
      = take m (py_sorted_reverse (\<lambda>item. total_volume (snd item)) (expected_volumes (records_of data)))"
    unfolding ranked_def using py_slice_to_take by blast
  have "distinct (map fst (py_sorted_reverse (\<lambda>item. total_volume (snd item))
                             (expected_volumes (records_of data))))"
    by (rule distinct_py_sorted_reverse) (rule distinct_expected)
  then have "distinct (map fst (ranked data n))"
    unfolding m by (simp add: take_map [symmetric] distinct_take)
  then show ?thesis by (rule dict_of_pairs_distinct)
qed

lemma aggregate_volumes_Inr:
  assumes "aggregate_volumes payload n = Inr r"
  shows "sum_company_volumes (json_loads payload) = Inr (expected_volumes (records_of (json_loads payload)))
         \<and> r = ranked (json_loads payload) n"
proof -
  from assms obtain cv where s: "sum_company_volumes (json_loads payload) = Inr cv"
    by (auto simp: aggregate_volumes_def Let_def split: sum.splits)
  from sum_company_volumes_expected [OF s]
  have cv: "cv = expected_volumes (records_of (json_loads payload))" .
  from assms s cv have "r = dict_of_pairs (ranked (json_loads payload) n)"
    by (simp add: aggregate_volumes_def Let_def ranked_def)
  with s cv show ?thesis by (simp add: dict_of_pairs_ranked)
qed

lemma aggregate_volumes_well_typed:
  assumes "well_typed (json_loads payload)"
  shows "aggregate_volumes payload n = Inr (ranked (json_loads payload) n)"
  using sum_company_volumes_well_typed [OF assms] dict_of_pairs_ranked [of "json_loads payload" n]
  by (simp add: aggregate_volumes_def Let_def ranked_def)

lemma ranked_sorted:
  "sorted_wrt (\<lambda>a b. total_volume (snd b) \<le> total_volume (snd a)) (ranked data n)"
proof -
  obtain m where m: "ranked data n
      = take m (py_sorted_reverse (\<lambda>item. total_volume (snd item)) (expected_volumes (records_of data)))"
    unfolding ranked_def using py_slice_to_take by blast
  show ?thesis unfolding m
    by (rule sorted_wrt_take) (rule py_sorted_reverse_sorted)
qed

lemma ranked_stable:
  "prefix (filter (\<lambda>item. total_volume (snd item) = v) (ranked data n))
          (filter (\<lambda>item. total_volume (snd item) = v) (expected_volumes (records_of data)))"
proof -
  obtain m where m: "ranked data n
      = take m (py_sorted_reverse (\<lambda>item. total_volume (snd item)) (expected_volumes (records_of data)))"
    unfolding ranked_def using py_slice_to_take by blast
  have "prefix (ranked data n)
          (py_sorted_reverse (\<lambda>item. total_volume (snd item)) (expected_volumes (records_of data)))"
    unfolding m by (rule take_is_prefix)
  then have "prefix (filter (\<lambda>item. total_volume (snd item) = v) (ranked data n))
      (filter (\<lambda>item. total_volume (snd item) = v)
         (py_sorted_reverse (\<lambda>item. total_volume (snd item)) (expected_volumes (records_of data))))"
    by (rule filter_mono_prefix)
  then show ?thesis by (simp add: py_sorted_reverse_stable)
qed

lemma length_ranked:
  assumes "1 \<le> n"
  shows "length (ranked data n) = min (nat n) (card (name_key ` set (records_of data)))"
proof -
  have "length (expected_volumes (records_of data)) = card (name_key ` set (records_of data))"
    by (simp add: expected_volumes_def first_seen_def length_remdups_card_conv)
  with assms show ?thesis
    by (simp add: ranked_def length_py_slice_to length_py_sorted_reverse)
qed

subsection \<open>Conservation of volume\<close>

text \<open>
  Claim C6. Whenever the two loops of \<^verbatim>\<open>aggregate_volumes\<close> run to their end, the
  dictionary they leave (before sorting and truncation) is the expected one: one entry
  for each distinct company name, in first-seen order, whose symbol is that of the first
  record with the name and whose total is the sum of the volumes of the records with the
  name. The totals of all entries add up to the sum of the volume fields of all records,
  so no record is counted twice or dropped. On a document of the shape of the data model
  the loops do run to their end.
\<close>

theorem aggregation_conserves_volume:
  "(sum_company_volumes data = Inr cv \<longrightarrow>
      cv = expected_volumes (records_of data)
      \<and> distinct (map fst cv)
      \<and> sum_totals cv = sum_list (map volume_of (records_of data)))
   \<and> (well_typed data \<longrightarrow> (\<exists>cv. sum_company_volumes data = Inr cv))"
  using sum_company_volumes_expected [of data cv] sum_company_volumes_well_typed [of data]
  by (auto simp: distinct_expected sum_totals_expected)

text \<open>
  The scenario of the specification: company A with 100 on one day and 50 on the next
  gives the single entry A with symbol AAA and total 150.
\<close>

theorem aggregation_conserves_volume_witness:
  "sum_company_volumes two_days_doc = Inr [(JStr ''A'', \<lparr>symbol = JStr ''AAA'', total_volume = 150\<rparr>)]
   \<and> well_typed two_days_doc
   \<and> [(JStr ''A'', \<lparr>symbol = JStr ''AAA'', total_volume = 150\<rparr>)]
        = expected_volumes (records_of two_days_doc)
   \<and> sum_totals [(JStr ''A'', \<lparr>symbol = JStr ''AAA'', total_volume = 150\<rparr>)]
        = sum_list (map volume_of (records_of two_days_doc))
   \<and> sum_list (map volume_of (records_of two_days_doc)) = 150"
proof -
  have r: "sum_company_volumes two_days_doc
             = Inr [(JStr ''A'', \<lparr>symbol = JStr ''AAA'', total_volume = 150\<rparr>)]"
    by code_simp
  have w: "well_typed two_days_doc" by code_simp
  have v: "sum_list (map volume_of (records_of two_days_doc)) = 150" by code_simp
  from aggregation_conserves_volume
         [of two_days_doc "[(JStr ''A'', \<lparr>symbol = JStr ''AAA'', total_volume = 150\<rparr>)]"] r
  have "[(JStr ''A'', \<lparr>symbol = JStr ''AAA'', total_volume = 150\<rparr>)]
          = expected_volumes (records_of two_days_doc)
        \<and> sum_totals [(JStr ''A'', \<lparr>symbol = JStr ''AAA'', total_volume = 150\<rparr>)]
          = sum_list (map volume_of (records_of two_days_doc))"
    by blast
  with r w v show ?thesis by blast
qed

subsection \<open>Ranking order\<close>

text \<open>
  Claim C7. In every result of \<^verbatim>\<open>aggregate_volumes\<close> the totals never increase from
  one entry to the next, and the entries with any given total are, in the same order,
  the first of the entries with that total in the dictionary the loops built, whose order
  is the order in which the names were first seen: ties keep insertion order. On a
  document of the shape of the data model there is a result.
\<close>

theorem ranked_result_order:
  "(aggregate_volumes payload top_n = Inr r \<longrightarrow>
      sorted_wrt (\<lambda>a b. total_volume (snd b) \<le> total_volume (snd a)) r
      \<and> (\<forall>i. Suc i < length r \<longrightarrow> total_volume (snd (r ! Suc i)) \<le> total_volume (snd (r ! i)))
      \<and> sum_company_volumes (json_loads payload)
          = Inr (expected_volumes (records_of (json_loads payload)))
      \<and> (\<forall>v. prefix (filter (\<lambda>item. total_volume (snd item) = v) r)
                    (filter (\<lambda>item. total_volume (snd item) = v)
                       (expected_volumes (records_of (json_loads payload))))))
   \<and> (well_typed (json_loads payload) \<longrightarrow> (\<exists>r. aggregate_volumes payload top_n = Inr r))"
proof (intro conjI impI allI)
  assume a: "aggregate_volumes payload top_n = Inr r"
  from aggregate_volumes_Inr [OF a]
  have s: "sum_company_volumes (json_loads payload)
             = Inr (expected_volumes (records_of (json_loads payload)))"
    and r: "r = ranked (json_loads payload) top_n"
    by simp_all
  show srt: "sorted_wrt (\<lambda>a b. total_volume (snd b) \<le> total_volume (snd a)) r"
    unfolding r by (rule ranked_sorted)
  show "sum_company_volumes (json_loads payload)
          = Inr (expected_volumes (records_of (json_loads payload)))"
    by (rule s)
  show "prefix (filter (\<lambda>item. total_volume (snd item) = v) r)
          (filter (\<lambda>item. total_volume (snd item) = v)
             (expected_volumes (records_of (json_loads payload))))" for v
    unfolding r by (rule ranked_stable)
  show "total_volume (snd (r ! Suc i)) \<le> total_volume (snd (r ! i))" if "Suc i < length r" for i
    using srt that by (simp add: sorted_wrt_iff_nth_less)
next
  assume "well_typed (json_loads payload)"
  then show "\<exists>r. aggregate_volumes payload top_n = Inr r"
    by (simp add: aggregate_volumes_well_typed)
qed

text \<open>
  A document where A (100) and C (60 + 40) tie behind B (200): A, first seen before C,
  stays before C.
\<close>

theorem ranked_result_order_witness:
  "aggregate_volumes (json_dumps ties_doc) 5
     = Inr [(JStr ''B'', \<lparr>symbol = JStr ''BBB'', total_volume = 200\<rparr>),
            (JStr ''A'', \<lparr>symbol = JStr ''AAA'', total_volume = 100\<rparr>),
            (JStr ''C'', \<lparr>symbol = JStr ''CCC'', total_volume = 100\<rparr>)]
   \<and> well_typed (json_loads (json_dumps ties_doc))
   \<and> sorted_wrt (\<lambda>a b. total_volume (snd b) \<le> total_volume (snd a))
        [(JStr ''B'', \<lparr>symbol = JStr ''BBB'', total_volume = 200\<rparr>),
         (JStr ''A'', \<lparr>symbol = JStr ''AAA'', total_volume = 100\<rparr>),
         (JStr ''C'', \<lparr>symbol = JStr ''CCC'', total_volume = 100\<rparr>)]
   \<and> prefix (filter (\<lambda>item. total_volume (snd item) = 100)
        [(JStr ''B'', \<lparr>symbol = JStr ''BBB'', total_volume = 200\<rparr>),
         (JStr ''A'', \<lparr>symbol = JStr ''AAA'', total_volume = 100\<rparr>),
         (JStr ''C'', \<lparr>symbol = JStr ''CCC'', total_volume = 100\<rparr>)])
        (filter (\<lambda>item. total_volume (snd item) = 100)
           (expected_volumes (records_of (json_loads (json_dumps ties_doc)))))
   \<and> map fst (expected_volumes (records_of (json_loads (json_dumps ties_doc))))
        = [JStr ''A'', JStr ''B'', JStr ''C'']"
proof -
  have r: "aggregate_volumes (json_dumps ties_doc) 5
     = Inr [(JStr ''B'', \<lparr>symbol = JStr ''BBB'', total_volume = 200\<rparr>),
            (JStr ''A'', \<lparr>symbol = JStr ''AAA'', total_volume = 100\<rparr>),
            (JStr ''C'', \<lparr>symbol = JStr ''CCC'', total_volume = 100\<rparr>)]"
    by code_simp
  have w: "well_typed (json_loads (json_dumps ties_doc))" by code_simp
  have k: "map fst (expected_volumes (records_of (json_loads (json_dumps ties_doc))))
        = [JStr ''A'', JStr ''B'', JStr ''C'']"
    by code_simp
  from ranked_result_order [of "json_dumps ties_doc" 5
      "[(JStr ''B'', \<lparr>symbol = JStr ''BBB'', total_volume = 200\<rparr>),
        (JStr ''A'', \<lparr>symbol = JStr ''AAA'', total_volume = 100\<rparr>),
        (JStr ''C'', \<lparr>symbol = JStr ''CCC'', total_volume = 100\<rparr>)]"] r w k
  show ?thesis by blast
qed

subsection \<open>Truncation\<close>

text \<open>
  Claim C8. For \<open>top_n \<ge> 1\<close> every result of \<^verbatim>\<open>aggregate_volumes\<close> has
  \<open>min top_n k\<close> entries, where \<open>k\<close> is the number of distinct company names among
  the records of the input; on a document of the shape of the data model there is a
  result.
\<close>

theorem ranked_result_length:
  "1 \<le> top_n \<Longrightarrow>
   (aggregate_volumes payload top_n = Inr r \<longrightarrow>
      length r = min (nat top_n) (card (name_key ` set (records_of (json_loads payload)))))
   \<and> (well_typed (json_loads payload) \<longrightarrow> (\<exists>r. aggregate_volumes payload top_n = Inr r))"
  using aggregate_volumes_Inr [of payload top_n r] aggregate_volumes_well_typed [of payload top_n]
  by (auto simp: length_ranked)

text \<open>
  The scenario of the specification: three companies with volumes 300, 200 and 100 and
  \<open>top_n = 1\<close> leave the entry with 300 alone.
\<close>

theorem ranked_result_length_witness:
  "(1::int) \<le> 1
   \<and> well_typed (json_loads (json_dumps three_companies_doc))
   \<and> aggregate_volumes (json_dumps three_companies_doc) 1
       = Inr [(JStr ''X'', \<lparr>symbol = JStr ''XXX'', total_volume = 300\<rparr>)]
   \<and> length [(JStr ''X'', \<lparr>symbol = JStr ''XXX'', total_volume = 300\<rparr>)]
       = min (nat 1) (card (name_key ` set (records_of (json_loads (json_dumps three_companies_doc)))))
   \<and> card (name_key ` set (records_of (json_loads (json_dumps three_companies_doc)))) = 3"
proof -
  have one: "(1::int) \<le> 1" by simp
  have r: "aggregate_volumes (json_dumps three_companies_doc) 1
       = Inr [(JStr ''X'', \<lparr>symbol = JStr ''XXX'', total_volume = 300\<rparr>)]"
    by code_simp
  have w: "well_typed (json_loads (json_dumps three_companies_doc))" by code_simp
  have c: "card (name_key ` set (records_of (json_loads (json_dumps three_companies_doc)))) = 3"
    by code_simp
  from ranked_result_length [OF one, of "json_dumps three_companies_doc"
      "[(JStr ''X'', \<lparr>symbol = JStr ''XXX'', total_volume = 300\<rparr>)]"] r w c one
  show ?thesis by blast
qed

section \<open>The result table: empty results and repeated formatting\<close>

lemma append_rows_rows_text:
  "append_rows acc r = (case rows_text r of Inl x \<Rightarrow> Inl x | Inr body \<Rightarrow> Inr (acc @ body))"
  by (induction r arbitrary: acc) (auto split: sum.splits)

lemma table_frame_3:
  "(((''Top Companies by Transaction Volume'' @ newline) @ rule_line) @ header_row) @ rule_line
     = ''Top Companies by Transaction Volume\<newline>--------------------------------\<newline>Company Name        Symbol    Total Volume   \<newline>--------------------------------\<newline>''"
  by code_simp

lemma table_frame_4:
  "'':'' @ newline @ rule_line @ header_row @ rule_line
     = '':\<newline>--------------------------------\<newline>Company Name        Symbol    Total Volume   \<newline>--------------------------------\<newline>''"
  by code_simp

lemma format_table_3_rows:
  "format_table_3 r
     = (case rows_text r of Inl x \<Rightarrow> Inl x
        | Inr body \<Rightarrow> Inr (''Top Companies by Transaction Volume\<newline>--------------------------------\<newline>Company Name        Symbol    Total Volume   \<newline>--------------------------------\<newline>'' @ body))"
  unfolding format_table_3_def Let_def append_rows_rows_text table_frame_3 by (rule refl)

lemma format_table_4_rows:
  "format_table_4 valid_date r
     = (case rows_text r of Inl x \<Rightarrow> Inl x
        | Inr body \<Rightarrow> Inr (''Here is the top companies by transaction volume for '' @ valid_date
            @ '':\<newline>--------------------------------\<newline>Company Name        Symbol    Total Volume   \<newline>--------------------------------\<newline>'' @ body))"
proof -
  have "((((''Here is the top companies by transaction volume for '' @ valid_date @ '':'' @ newline)
            @ rule_line) @ header_row) @ rule_line) @ body
        = ''Here is the top companies by transaction volume for '' @ valid_date
            @ ('':'' @ newline @ rule_line @ header_row @ rule_line) @ body" for body
    by (simp only: append_assoc)
  then show ?thesis
    unfolding format_table_4_def Let_def append_rows_rows_text table_frame_4 by (simp only:)
qed

text \<open>
  Claim C9. Both scripts format an empty result without an error, as the title line, a
  rule, the row of column headers and a second rule, with no data row after them. For any
  result the text is the same four lines followed by the rows of its entries, so it
  depends on nothing but the result (and, in \<^verbatim>\<open>ai-4.py\<close>, the date in the title):
  formatting the same result twice gives the same text.
\<close>

theorem format_table_empty_and_deterministic:
  "format_table_3 []
     = Inr ''Top Companies by Transaction Volume\<newline>--------------------------------\<newline>Company Name        Symbol    Total Volume   \<newline>--------------------------------\<newline>''
   \<and> format_table_4 valid_date []
     = Inr (''Here is the top companies by transaction volume for '' @ valid_date
            @ '':\<newline>--------------------------------\<newline>Company Name        Symbol    Total Volume   \<newline>--------------------------------\<newline>'')
   \<and> format_table_3 r
     = (case rows_text r of Inl x \<Rightarrow> Inl x
        | Inr body \<Rightarrow> Inr (''Top Companies by Transaction Volume\<newline>--------------------------------\<newline>Company Name        Symbol    Total Volume   \<newline>--------------------------------\<newline>'' @ body))
   \<and> format_table_4 valid_date r
     = (case rows_text r of Inl x \<Rightarrow> Inl x
        | Inr body \<Rightarrow> Inr (''Here is the top companies by transaction volume for '' @ valid_date
            @ '':\<newline>--------------------------------\<newline>Company Name        Symbol    Total Volume   \<newline>--------------------------------\<newline>'' @ body))
   \<and> (format_table_3 r = first \<and> format_table_3 r = second \<longrightarrow> first = second)
   \<and> (format_table_4 valid_date r = first \<and> format_table_4 valid_date r = second
        \<longrightarrow> first = second)"
proof (intro conjI impI)
  show "format_table_3 r
     = (case rows_text r of Inl x \<Rightarrow> Inl x
        | Inr body \<Rightarrow> Inr (''Top Companies by Transaction Volume\<newline>--------------------------------\<newline>Company Name        Symbol    Total Volume   \<newline>--------------------------------\<newline>'' @ body))"
    by (rule format_table_3_rows)
  show "format_table_4 valid_date r
     = (case rows_text r of Inl x \<Rightarrow> Inl x
        | Inr body \<Rightarrow> Inr (''Here is the top companies by transaction volume for '' @ valid_date
            @ '':\<newline>--------------------------------\<newline>Company Name        Symbol    Total Volume   \<newline>--------------------------------\<newline>'' @ body))"
    by (rule format_table_4_rows)
  show "format_table_3 []
     = Inr ''Top Companies by Transaction Volume\<newline>--------------------------------\<newline>Company Name        Symbol    Total Volume   \<newline>--------------------------------\<newline>''"
    unfolding format_table_3_rows by (simp only: rows_text.simps sum.case append_Nil2)
  show "format_table_4 valid_date []
     = Inr (''Here is the top companies by transaction volume for '' @ valid_date
            @ '':\<newline>--------------------------------\<newline>Company Name        Symbol    Total Volume   \<newline>--------------------------------\<newline>'')"
    unfolding format_table_4_rows by (simp only: rows_text.simps sum.case append_Nil2)
  show "first = second" if "format_table_3 r = first \<and> format_table_3 r = second"
    using that by (elim conjE) (rule trans [OF sym])
  show "first = second"
    if "format_table_4 valid_date r = first \<and> format_table_4 valid_date r = second"
    using that by (elim conjE) (rule trans [OF sym])
qed

text \<open>The table of the single entry A, AAA, 150 in both scripts.\<close>

theorem format_table_witness:
  "format_table_3 [(JStr ''A'', \<lparr>symbol = JStr ''AAA'', total_volume = 150\<rparr>)]
     = Inr ''Top Companies by Transaction Volume\<newline>--------------------------------\<newline>Company Name        Symbol    Total Volume   \<newline>--------------------------------\<newline>A                   AAA       150            \<newline>''
   \<and> format_table_4 ''2024-01-02'' [(JStr ''A'', \<lparr>symbol = JStr ''AAA'', total_volume = 150\<rparr>)]
     = Inr ''Here is the top companies by transaction volume for 2024-01-02:\<newline>--------------------------------\<newline>Company Name        Symbol    Total Volume   \<newline>--------------------------------\<newline>A                   AAA       150            \<newline>''"
proof -
  have r: "rows_text [(JStr ''A'', \<lparr>symbol = JStr ''AAA'', total_volume = 150\<rparr>)]
             = Inr ''A                   AAA       150            \<newline>''"
    by code_simp
  have a3: "''Top Companies by Transaction Volume\<newline>--------------------------------\<newline>Company Name        Symbol    Total Volume   \<newline>--------------------------------\<newline>'' @ ''A                   AAA       150            \<newline>''
     = ''Top Companies by Transaction Volume\<newline>--------------------------------\<newline>Company Name        Symbol    Total Volume   \<newline>--------------------------------\<newline>A                   AAA       150            \<newline>''"
    by code_simp
  have a4: "''Here is the top companies by transaction volume for '' @ ''2024-01-02'' @ '':\<newline>--------------------------------\<newline>Company Name        Symbol    Total Volume   \<newline>--------------------------------\<newline>'' @ ''A                   AAA       150            \<newline>''
     = ''Here is the top companies by transaction volume for 2024-01-02:\<newline>--------------------------------\<newline>Company Name        Symbol    Total Volume   \<newline>--------------------------------\<newline>A                   AAA       150            \<newline>''"
    by code_simp
  note t = format_table_empty_and_deterministic
         [of "''2024-01-02''" "[(JStr ''A'', \<lparr>symbol = JStr ''AAA'', total_volume = 150\<rparr>)]"]
  from t [THEN conjunct2, THEN conjunct2, THEN conjunct1]
  have "format_table_3 [(JStr ''A'', \<lparr>symbol = JStr ''AAA'', total_volume = 150\<rparr>)]
     = Inr (''Top Companies by Transaction Volume\<newline>--------------------------------\<newline>Company Name        Symbol    Total Volume   \<newline>--------------------------------\<newline>'' @ ''A                   AAA       150            \<newline>'')"
    unfolding r sum.case .
  moreover from t [THEN conjunct2, THEN conjunct2, THEN conjunct2, THEN conjunct1]
  have "format_table_4 ''2024-01-02'' [(JStr ''A'', \<lparr>symbol = JStr ''AAA'', total_volume = 150\<rparr>)]
     = Inr (''Here is the top companies by transaction volume for '' @ ''2024-01-02'' @ '':\<newline>--------------------------------\<newline>Company Name        Symbol    Total Volume   \<newline>--------------------------------\<newline>'' @ ''A                   AAA       150            \<newline>'')"
    unfolding r sum.case .
  ultimately show ?thesis unfolding a3 a4 by (rule conjI)
qed

section \<open>Counting the days that are left\<close>

termination days_to_max
  by (relation "measure days_left") (auto dest: add_one_day_valid)

declare days_to_max.simps [simp del]

section \<open>The resolver, one attempt at a time\<close>

lemma try_block_answer:
  "try_block e start_date end_date top_n date lg
     = (answer (most_traded_url start_date end_date top_n) top_n date
          (network e (length lg) (tool_request e start_date end_date top_n)),
        lg @ [tool_request e start_date end_date top_n])"
  by (simp add: try_block_def fetch_data_def retrieve_from_endpoint_def requests_get_def
        raise_for_status_def response_json_def answer_def tool_request_def Let_def
        split: outcome.splits option.splits sum.splits)

lemma retried_answer:
  "retried url top_n out \<longleftrightarrow> (\<exists>x. answer url top_n date out = Inl x \<and> is_Exception x)"
  by (simp add: retried_def answer_def split: outcome.splits option.splits sum.splits)

lemma loop_returns:
  assumes "answer (most_traded_url start_date end_date top_n) top_n date
             (network e (length lg) (tool_request e start_date end_date top_n)) = Inr v"
  shows "get_next_available_date e start_date end_date top_n date lg
           = (Inr v, lg @ [tool_request e start_date end_date top_n])"
  by (subst get_next_available_date.simps) (simp add: try_block_answer assms)

lemma loop_escapes:
  assumes "answer (most_traded_url start_date end_date top_n) top_n date
             (network e (length lg) (tool_request e start_date end_date top_n)) = Inl x"
    and "\<not> is_Exception x"
  shows "get_next_available_date e start_date end_date top_n date lg
           = (Inl x, lg @ [tool_request e start_date end_date top_n])"
  by (subst get_next_available_date.simps) (simp add: try_block_answer assms)

lemma loop_advances:
  assumes "retried (most_traded_url start_date end_date top_n) top_n
             (network e (length lg) (tool_request e start_date end_date top_n))"
  shows "get_next_available_date e start_date end_date top_n date lg
           = (case next_date_string date of
                Inl y \<Rightarrow> (Inl y, lg @ [tool_request e start_date end_date top_n])
              | Inr date1 \<Rightarrow>
                  get_next_available_date e start_date end_date top_n date1
                    (lg @ [tool_request e start_date end_date top_n]))"
proof -
  from assms obtain x where
    "answer (most_traded_url start_date end_date top_n) top_n date
       (network e (length lg) (tool_request e start_date end_date top_n)) = Inl x"
    and "is_Exception x"
    using retried_answer by blast
  then show ?thesis
    by (subst get_next_available_date.simps) (simp add: try_block_answer)
qed


section \<open>Which exceptions the aggregation can raise\<close>

lemma py_getitem_Exception: "py_getitem c k = Inl x \<Longrightarrow> is_Exception x"
  by (cases c) (auto split: option.splits)

lemma py_hash_key_Exception: "py_hash_key v = Inl x \<Longrightarrow> is_Exception x"
  by (cases v) auto

lemma py_add_Exception: "py_add t v = Inl x \<Longrightarrow> is_Exception x"
  by (cases v) auto

lemma py_iter_Exception: "py_iter v = Inl x \<Longrightarrow> is_Exception x"
  by (cases v) auto

lemma py_values_Exception: "py_values v = Inl x \<Longrightarrow> is_Exception x"
  by (cases v) auto

lemma add_company_Exception: "add_company cv c = Inl x \<Longrightarrow> is_Exception x"
  by (auto simp: add_company_def split: sum.splits option.splits if_splits
      dest: py_getitem_Exception py_hash_key_Exception py_add_Exception)

lemma inner_loop_Exception: "inner_loop cv cs = Inl x \<Longrightarrow> is_Exception x"
  by (induction cs arbitrary: cv) (auto split: sum.splits dest: add_company_Exception)

lemma outer_loop_Exception: "outer_loop cv days = Inl x \<Longrightarrow> is_Exception x"
  by (induction days arbitrary: cv)
     (auto split: sum.splits dest: py_iter_Exception inner_loop_Exception)

lemma aggregate_volumes_Exception: "aggregate_volumes payload n = Inl x \<Longrightarrow> is_Exception x"
  by (auto simp: aggregate_volumes_def sum_company_volumes_def Let_def split: sum.splits
      dest: py_values_Exception outer_loop_Exception)

lemma answer_SystemExit:
  "answer url top_n date out = Inl (SystemExit h) \<longleftrightarrow>
     (\<exists>r. out = Returned r \<and> 400 \<le> status_code r \<and> status_code r < 600
          \<and> h = HTTPError (status_code r) (reason r) url)"
  by (auto simp: answer_def split: outcome.splits option.splits sum.splits
      dest: aggregate_volumes_Exception)

lemma answer_not_Exception:
  "answer url top_n date out = Inl x \<Longrightarrow> \<not> is_Exception x \<Longrightarrow>
   \<exists>r. out = Returned r \<and> 400 \<le> status_code r \<and> status_code r < 600
       \<and> x = SystemExit (HTTPError (status_code r) (reason r) url)"
  by (auto simp: answer_def split: outcome.splits option.splits sum.splits if_splits
      dest: aggregate_volumes_Exception)

section \<open>The resolver when every attempt fails\<close>

lemma add_one_day_Inl: "add_one_day d = Inl y \<Longrightarrow> y = OverflowError"
  by (auto simp: add_one_day_def split: if_splits)

lemma add_one_day_year: "add_one_day d = Inr d1 \<Longrightarrow> year d \<le> year d1"
  by (auto simp: add_one_day_def split: if_splits)

lemma loop_all_fail:
  assumes "\<forall>i\<ge>length lg. retried (most_traded_url start_date end_date top_n) top_n
             (network e i (tool_request e start_date end_date top_n))"
    and "strptime date = Inr d"
    and "\<forall>d1. add_one_day d = Inr d1 \<longrightarrow> 1000 \<le> year d1"
  shows "get_next_available_date e start_date end_date top_n date lg
           = (Inl OverflowError,
              lg @ replicate (Suc (days_to_max d)) (tool_request e start_date end_date top_n))"
  using assms
proof (induction "days_left d" arbitrary: date lg d rule: less_induct)
  case less
  let ?rq = "tool_request e start_date end_date top_n"
  from less.prems(2) have ok: "date_ok d" by (rule strptime_valid)
  from less.prems(1) have now: "retried (most_traded_url start_date end_date top_n) top_n
      (network e (length lg) ?rq)" by simp
  show ?case
  proof (cases "add_one_day d")
    case (Inl y)
    then have y: "y = OverflowError" by (rule add_one_day_Inl)
    from Inl ok have "days_to_max d = 0" by (simp add: days_to_max.simps)
    moreover from Inl y less.prems(2) have "next_date_string date = Inl OverflowError"
      by (simp add: next_date_string_def)
    ultimately show ?thesis by (simp add: loop_advances [OF now])
  next
    case (Inr d1)
    from add_one_day_valid [OF ok Inr] have ok1: "date_ok d1" and lt: "days_left d1 < days_left d"
      by simp_all
    from less.prems(3) Inr have full: "1000 \<le> year d1" by simp
    then have next_full: "\<forall>d2. add_one_day d1 = Inr d2 \<longrightarrow> 1000 \<le> year d2"
      using add_one_day_year by fastforce
    from Inr less.prems(2) have nx: "next_date_string date = Inr (strftime d1)"
      by (simp add: next_date_string_def)
    from less.prems(1) have later: "\<forall>i\<ge>length (lg @ [?rq]).
        retried (most_traded_url start_date end_date top_n) top_n (network e i ?rq)"
      by simp
    from Inr ok have dm: "days_to_max d = Suc (days_to_max d1)" by (simp add: days_to_max.simps)
    from less.hyps [OF lt later strptime_strftime [OF ok1 full] next_full]
    show ?thesis
      by (simp add: loop_advances [OF now] nx dm replicate_app_Cons_same)
  qed
qed

lemma loop_short_year:
  assumes "retried (most_traded_url start_date end_date top_n) top_n
             (network e (length lg) (tool_request e start_date end_date top_n))"
    and "retried (most_traded_url start_date end_date top_n) top_n
             (network e (Suc (length lg)) (tool_request e start_date end_date top_n))"
    and "strptime date = Inr d" and "add_one_day d = Inr d1" and "year d1 < 1000"
  shows "get_next_available_date e start_date end_date top_n date lg
           = (Inl ValueError,
              lg @ [tool_request e start_date end_date top_n,
                    tool_request e start_date end_date top_n])"
proof -
  let ?rq = "tool_request e start_date end_date top_n"
  from assms(3,4) have nx: "next_date_string date = Inr (strftime d1)"
    by (simp add: next_date_string_def)
  from assms(5) have "next_date_string (strftime d1) = Inl ValueError"
    by (simp add: next_date_string_def strptime_strftime_short)
  moreover from assms(2) have "retried (most_traded_url start_date end_date top_n) top_n
             (network e (length (lg @ [?rq])) ?rq)"
    by simp
  ultimately have "get_next_available_date e start_date end_date top_n (strftime d1) (lg @ [?rq])
      = (Inl ValueError, (lg @ [?rq]) @ [?rq])"
    by (simp add: loop_advances)
  then show ?thesis by (simp add: loop_advances [OF assms(1)] nx)
qed

lemma next_day_short_year:
  assumes "date_ok d" "year d < 1000" "d \<noteq> Date 999 12 31"
  shows "\<exists>d1. add_one_day d = Inr d1 \<and> year d1 < 1000"
proof -
  obtain y m dd where d: "d = Date y m dd" by (cases d)
  from assms d have "y < 1000" "m \<le> 12" "dd \<le> days_in_month y m"
    "\<not> (y = 999 \<and> m = 12 \<and> dd = 31)"
    by (simp_all add: date_ok_def)
  then show ?thesis
    unfolding d add_one_day_def by (auto simp: days_in_month_def split: if_splits)
qed

lemma next_day_full_year:
  assumes "1000 \<le> year d \<or> d = Date 999 12 31"
  shows "\<forall>d1. add_one_day d = Inr d1 \<longrightarrow> 1000 \<le> year d1"
proof (intro allI impI)
  fix d1 assume a: "add_one_day d = Inr d1"
  from assms show "1000 \<le> year d1"
  proof
    assume "1000 \<le> year d"
    with add_one_day_year [OF a] show ?thesis by simp
  next
    assume "d = Date 999 12 31"
    with a show ?thesis by (auto simp: add_one_day_def days_in_month_def split: if_splits)
  qed
qed

lemma loop_malformed_date:
  assumes "retried (most_traded_url start_date end_date top_n) top_n
             (network e (length lg) (tool_request e start_date end_date top_n))"
    and "strptime date = Inl y"
  shows "get_next_available_date e start_date end_date top_n date lg
           = (Inl ValueError, lg @ [tool_request e start_date end_date top_n])"
  using strptime_Inl [OF assms(2)] assms(2)
  by (simp add: loop_advances [OF assms(1)] next_date_string_def)

section \<open>The requests of the resolver\<close>

lemma loop_trace:
  "\<exists>k. snd (get_next_available_date e start_date end_date top_n date lg)
          = lg @ replicate (Suc k) (tool_request e start_date end_date top_n)
     \<and> (\<forall>i<k. retried (most_traded_url start_date end_date top_n) top_n
                 (network e (length lg + i) (tool_request e start_date end_date top_n)))
     \<and> (\<forall>x. fst (get_next_available_date e start_date end_date top_n date lg) = Inl x
             \<and> \<not> is_Exception x
           \<longrightarrow> answer (most_traded_url start_date end_date top_n) top_n date
                 (network e (length lg + k) (tool_request e start_date end_date top_n)) = Inl x)"
proof (induction "steps_left date" arbitrary: date lg rule: less_induct)
  case less
  let ?rq = "tool_request e start_date end_date top_n"
  let ?url = "most_traded_url start_date end_date top_n"
  let ?P = "\<lambda>date lg k. snd (get_next_available_date e start_date end_date top_n date lg)
          = lg @ replicate (Suc k) ?rq
     \<and> (\<forall>i<k. retried ?url top_n (network e (length lg + i) ?rq))
     \<and> (\<forall>x. fst (get_next_available_date e start_date end_date top_n date lg) = Inl x
             \<and> \<not> is_Exception x
           \<longrightarrow> answer ?url top_n date (network e (length lg + k) ?rq) = Inl x)"
  show ?case
  proof (cases "answer ?url top_n date (network e (length lg) ?rq)")
    case (Inr v)
    from loop_returns [OF Inr] have "?P date lg 0" by simp
    then show ?thesis by blast
  next
    case (Inl x)
    show ?thesis
    proof (cases "is_Exception x")
      case False
      from loop_escapes [OF Inl False] Inl have "?P date lg 0" by simp
      then show ?thesis by blast
    next
      case True
      with Inl have now: "retried ?url top_n (network e (length lg) ?rq)"
        using retried_answer by blast
      show ?thesis
      proof (cases "next_date_string date")
        case (Inl y)
        then obtain "y = ValueError \<or> y = OverflowError"
          by (auto simp: next_date_string_def split: sum.splits
              dest: strptime_Inl add_one_day_Inl)
        then have "is_Exception y" by auto
        with Inl loop_advances [OF now, of date] have "?P date lg 0" by simp
        then show ?thesis by blast
      next
        case (Inr date1)
        then have "steps_left date1 < steps_left date" by (rule next_date_string_decreases)
        from less.hyps [OF this, of "lg @ [?rq]"] obtain k where k: "?P date1 (lg @ [?rq]) k"
          by blast
        have eq: "get_next_available_date e start_date end_date top_n date lg
                = get_next_available_date e start_date end_date top_n date1 (lg @ [?rq])"
          by (simp add: loop_advances [OF now] Inr)
        have r: "\<forall>i<Suc k. retried ?url top_n (network e (length lg + i) ?rq)"
        proof (intro allI impI)
          fix i assume "i < Suc k"
          show "retried ?url top_n (network e (length lg + i) ?rq)"
          proof (cases i)
            case 0
            with now show ?thesis by simp
          next
            case (Suc j)
            with \<open>i < Suc k\<close> k show ?thesis by simp
          qed
        qed
        have a: "answer ?url top_n date (network e (length lg + Suc k) ?rq) = Inl x"
          if "fst (get_next_available_date e start_date end_date top_n date lg) = Inl x"
            and "\<not> is_Exception x" for x
        proof -
          from that k eq have "answer ?url top_n date1 (network e (length lg + Suc k) ?rq) = Inl x"
            by simp
          with that(2) show ?thesis using answer_not_Exception answer_SystemExit by blast
        qed
        from k eq r a have "?P date lg (Suc k)"
          by (simp add: replicate_app_Cons_same)
        then show ?thesis by blast
      qed
    qed
  qed
qed

section \<open>The ordinal of a date and the days left\<close>

lemma div_Suc_dvd:
  "0 < k \<Longrightarrow> Suc z div k = z div k + (if k dvd Suc z then 1 else 0)"
  by (simp add: div_Suc dvd_eq_mod_eq_0)

lemma days_before_next_year:
  assumes "1 \<le> y"
  shows "days_before_year (Suc y) = days_before_year y + (if is_leap y then 366 else 365)"
proof -
  from assms obtain z where y: "y = Suc z" by (cases y) auto
  define A B C where "A = z div 4" and "B = z div 100" and "C = z div 400"
  have "B \<le> A" unfolding A_def B_def by (rule div_le_mono2) simp_all
  then obtain D where D: "A = B + D" using le_Suc_ex by blast
  have a: "Suc z div 4 = A + (if 4 dvd Suc z then 1 else 0)"
    unfolding A_def by (rule div_Suc_dvd) simp
  have b: "Suc z div 100 = B + (if 100 dvd Suc z then 1 else 0)"
    unfolding B_def by (rule div_Suc_dvd) simp
  have c: "Suc z div 400 = C + (if 400 dvd Suc z then 1 else 0)"
    unfolding C_def by (rule div_Suc_dvd) simp
  have d1: "100 dvd Suc z \<Longrightarrow> 4 dvd Suc z" by (rule dvd_trans [of 4 100]) simp_all
  have d2: "400 dvd Suc z \<Longrightarrow> 100 dvd Suc z" by (rule dvd_trans [of 100 400]) simp_all
  have l: "is_leap (Suc z) \<longleftrightarrow> 4 dvd Suc z \<and> (\<not> 100 dvd Suc z \<or> 400 dvd Suc z)"
    by (simp only: is_leap_def dvd_eq_mod_eq_0)
  have s: "days_before_year (Suc (Suc z)) = Suc z * 365 + Suc z div 4 - Suc z div 100 + Suc z div 400"
    by (simp add: days_before_year_def)
  have t: "days_before_year (Suc z) = z * 365 + (B + D) - B + C"
    by (simp add: days_before_year_def A_def [symmetric] B_def [symmetric] C_def [symmetric] D)
  consider (none) "\<not> 4 dvd Suc z" | (four) "4 dvd Suc z" "\<not> 100 dvd Suc z"
    | (hundred) "100 dvd Suc z" "\<not> 400 dvd Suc z" | (fourhundred) "400 dvd Suc z"
    by blast
  then show ?thesis
  proof cases
    case none
    with d1 d2 have n: "\<not> 100 dvd Suc z" "\<not> 400 dvd Suc z" by blast+
    show ?thesis unfolding y s t a b c l using none n by (simp add: D)
  next
    case four
    with d2 have n: "\<not> 400 dvd Suc z" by blast
    show ?thesis unfolding y s t a b c l using four n by (simp add: D)
  next
    case hundred
    with d1 have n: "4 dvd Suc z" by blast
    show ?thesis unfolding y s t a b c l using hundred n by (simp add: D)
  next
    case fourhundred
    with d1 d2 have n: "4 dvd Suc z" "100 dvd Suc z" by blast+
    show ?thesis unfolding y s t a b c l using fourhundred n by (simp add: D)
  qed
qed

lemma days_before_next_month:
  assumes "1 \<le> m" "m < 12"
  shows "days_before_month y (Suc m) = days_before_month y m + days_in_month y m"
proof -
  from assms have "m = 1 \<or> m = 2 \<or> m = 3 \<or> m = 4 \<or> m = 5 \<or> m = 6 \<or> m = 7 \<or> m = 8
      \<or> m = 9 \<or> m = 10 \<or> m = 11"
    by arith
  then show ?thesis
    by (elim disjE) (simp_all add: days_before_month_def days_in_month_def)
qed

lemma days_before_december: "days_before_month y 12 + 31 = (if is_leap y then 366 else 365)"
  by (simp add: days_before_month_def)

lemma toordinal_next:
  assumes "date_ok d" "add_one_day d = Inr d1"
  shows "toordinal d1 = Suc (toordinal d)"
proof -
  obtain y m dd where d: "d = Date y m dd" by (cases d)
  from assms(1) d have ok: "1 \<le> y" "1 \<le> m" "m \<le> 12" "dd \<le> days_in_month y m"
    by (simp_all add: date_ok_def)
  show ?thesis
  proof (cases "dd < days_in_month y m")
    case True
    with assms(2) d have "d1 = Date y m (Suc dd)" by (simp add: add_one_day_def)
    then show ?thesis by (simp add: toordinal_def d)
  next
    case False
    with ok have dd: "dd = days_in_month y m" by simp
    show ?thesis
    proof (cases "m < 12")
      case True
      with assms(2) d False have "d1 = Date y (Suc m) 1" by (simp add: add_one_day_def)
      then show ?thesis
        by (simp add: toordinal_def d dd days_before_next_month [OF ok(2) True])
    next
      case False
      with ok have m: "m = 12" by simp
      with assms(2) d dd have d1: "d1 = Date (Suc y) 1 1" and "y < 9999"
        by (auto simp: add_one_day_def days_in_month_def split: if_splits)
      have "days_before_month y 12 + dd = (if is_leap y then 366 else 365)"
        using days_before_december [of y] by (simp add: dd m days_in_month_def)
      then show ?thesis
        by (simp add: toordinal_def d d1 m days_before_next_year [OF ok(1)] days_before_month_def)
    qed
  qed
qed

lemma toordinal_last: "toordinal (Date 9999 12 31) = 3652059"
  by (simp add: toordinal_def days_before_year_def days_before_month_def is_leap_def)

lemma add_one_day_last:
  assumes "date_ok d" "add_one_day d = Inl y"
  shows "d = Date 9999 12 31"
proof -
  obtain yy m dd where d: "d = Date yy m dd" by (cases d)
  from assms d have "yy = 9999" "m = 12" "dd = days_in_month yy m"
    by (auto simp: add_one_day_def date_ok_def split: if_splits)
  then show ?thesis by (simp add: d days_in_month_def)
qed

lemma days_to_max_toordinal: "date_ok d \<Longrightarrow> toordinal d + days_to_max d = 3652059"
proof (induction "days_left d" arbitrary: d rule: less_induct)
  case less
  show ?case
  proof (cases "add_one_day d")
    case (Inl y)
    have "days_to_max d = 0" using Inl less.prems by (subst days_to_max.simps) simp
    with add_one_day_last [OF less.prems Inl] show ?thesis
      by (simp add: toordinal_last)
  next
    case (Inr d1)
    from add_one_day_valid [OF less.prems Inr] have "date_ok d1" "days_left d1 < days_left d"
      by simp_all
    moreover have "days_to_max d = Suc (days_to_max d1)"
      using Inr less.prems by (subst days_to_max.simps) simp
    ultimately show ?thesis
      using less.hyps [of d1] toordinal_next [OF less.prems Inr] by simp
  qed
qed

lemma days_to_max_example: "Suc (days_to_max (Date 2024 1 6)) = 2913169"
proof -
  have "date_ok (Date 2024 1 6)" by (simp add: date_ok_def days_in_month_def)
  from days_to_max_toordinal [OF this] show ?thesis
    by (simp add: toordinal_def days_before_year_def days_before_month_def)
qed

lemma requests_until_overflow: "date_ok d \<Longrightarrow> Suc (days_to_max d) = 3652060 - toordinal d"
  using days_to_max_toordinal [of d] by simp

section \<open>The resolver: concrete dates and requests\<close>

lemma next_day_of_saturday: "next_date_string ''2024-01-06'' = Inr ''2024-01-07''"
  by code_simp

lemma unreachable_retried: "retried url top_n (network unreachable i rq)"
  by (simp add: unreachable_def always_def retried_def answer_def)

lemma unreachable_request:
  "tool_request unreachable s en n = Request (most_traded_url s en n) (Some ''key'')"
  by (simp add: tool_request_def unreachable_def)

lemma strptime_saturday: "strptime ''2024-01-06'' = Inr (Date 2024 1 6)"
  by (simp add: strptime_def is_digit_def digit_val_def days_in_month_def is_leap_def)

lemma saturday_full_year: "\<forall>d1. add_one_day (Date 2024 1 6) = Inr d1 \<longrightarrow> 1000 \<le> year d1"
  by (rule next_day_full_year) simp

lemma toordinal_saturday: "3652060 - toordinal (Date 2024 1 6) = 2913169"
  by (simp add: toordinal_def days_before_year_def days_before_month_def)

lemma saturday_url:
  "most_traded_url ''2024-01-06'' ''2024-01-08'' 5
     = ''https://api.sectors.app/v1/most-traded/?start=2024-01-06&end=2024-01-08&n_stock=5''"
  by code_simp

lemma tool_4_result:
  "get_top_companies_by_tx_volume_4 e start_date end_date top_n lg
     = (case get_next_available_date e start_date end_date top_n start_date lg of
          (Inl x, lg1) \<Rightarrow> (Inl x, lg1)
        | (Inr v, lg1) \<Rightarrow> (format_table_4 (fst v) (snd v), lg1))"
  by (simp add: get_top_companies_by_tx_volume_4_def split: prod.splits sum.splits)

lemma unreachable_saturday:
  "get_next_available_date unreachable ''2024-01-06'' ''2024-01-08'' 5 ''2024-01-06'' []
     = (Inl OverflowError,
        replicate 2913169
          (Request ''https://api.sectors.app/v1/most-traded/?start=2024-01-06&end=2024-01-08&n_stock=5''
             (Some ''key'')))"
proof -
  have "date_ok (Date 2024 1 6)" using strptime_saturday by (rule strptime_valid)
  from requests_until_overflow [OF this] have n: "Suc (days_to_max (Date 2024 1 6)) = 2913169"
    unfolding toordinal_saturday .
  have "\<forall>i\<ge>length ([]::request list).
          retried (most_traded_url ''2024-01-06'' ''2024-01-08'' 5) 5
            (network unreachable i (tool_request unreachable ''2024-01-06'' ''2024-01-08'' 5))"
    by (simp add: unreachable_retried)
  from loop_all_fail [OF this strptime_saturday saturday_full_year] show ?thesis
    unfolding n unreachable_request saturday_url append_Nil .
qed

section \<open>The resolver and HTTP errors\<close>

text \<open>
  Claim C10, as the code has it. A response with a status from 400 to 599 makes the
  loop end at once with the \<^verbatim>\<open>SystemExit\<close> of the endpoint client, after that one
  request and without touching the date; and whenever the loop ends with a
  \<^verbatim>\<open>SystemExit\<close>, its last request got such a response. The loop goes on to the next
  date exactly when the \<^verbatim>\<open>try\<close> block raised an exception of class
  \<^verbatim>\<open>Exception\<close>: a transport failure and a body that is not JSON do so, whatever the
  status outside 400 to 599, and a 4xx or 5xx response never does.
\<close>

theorem http_error_leaves_the_resolver:
  fixes e start_date end_date top_n date lg
  defines "url \<equiv> most_traded_url start_date end_date top_n"
    and "rq \<equiv> tool_request e start_date end_date top_n"
  shows "(\<forall>r. network e (length lg) rq = Returned r \<and> 400 \<le> status_code r \<and> status_code r < 600
            \<longrightarrow> get_next_available_date e start_date end_date top_n date lg
                  = (Inl (SystemExit (HTTPError (status_code r) (reason r) url)), lg @ [rq]))
       \<and> (\<forall>h. fst (get_next_available_date e start_date end_date top_n date lg) = Inl (SystemExit h)
            \<longrightarrow> (\<exists>k r. snd (get_next_available_date e start_date end_date top_n date lg)
                          = lg @ replicate (Suc k) rq
                      \<and> network e (length lg + k) rq = Returned r
                      \<and> 400 \<le> status_code r \<and> status_code r < 600
                      \<and> h = HTTPError (status_code r) (reason r) url))
       \<and> (\<forall>date1. retried url top_n (network e (length lg) rq)
                  \<and> next_date_string date = Inr date1
            \<longrightarrow> get_next_available_date e start_date end_date top_n date lg
                  = get_next_available_date e start_date end_date top_n date1 (lg @ [rq]))
       \<and> (\<forall>out. retried url top_n out
            \<longleftrightarrow> (\<exists>x. answer url top_n date out = Inl x \<and> is_Exception x))
       \<and> (\<forall>x. retried url top_n (Raised x))
       \<and> (\<forall>r. \<not> (400 \<le> status_code r \<and> status_code r < 600) \<and> json_body r = None
            \<longrightarrow> retried url top_n (Returned r))
       \<and> (\<forall>r. 400 \<le> status_code r \<and> status_code r < 600 \<longrightarrow> \<not> retried url top_n (Returned r))"
proof (intro conjI allI impI)
  fix r assume a: "network e (length lg) rq = Returned r \<and> 400 \<le> status_code r \<and> status_code r < 600"
  then have "answer url top_n date (network e (length lg) rq)
               = Inl (SystemExit (HTTPError (status_code r) (reason r) url))"
    by (simp add: answer_def)
  then show "get_next_available_date e start_date end_date top_n date lg
               = (Inl (SystemExit (HTTPError (status_code r) (reason r) url)), lg @ [rq])"
    unfolding url_def rq_def by (rule loop_escapes) simp
next
  fix h assume h: "fst (get_next_available_date e start_date end_date top_n date lg) = Inl (SystemExit h)"
  from loop_trace [of e start_date end_date top_n date lg] obtain k where
    k: "snd (get_next_available_date e start_date end_date top_n date lg) = lg @ replicate (Suc k) rq"
    and x: "\<forall>x. fst (get_next_available_date e start_date end_date top_n date lg) = Inl x
             \<and> \<not> is_Exception x
           \<longrightarrow> answer url top_n date (network e (length lg + k) rq) = Inl x"
    unfolding url_def rq_def by blast
  from x h have "answer url top_n date (network e (length lg + k) rq) = Inl (SystemExit h)"
    by simp
  then obtain r where "network e (length lg + k) rq = Returned r" "400 \<le> status_code r"
    "status_code r < 600" "h = HTTPError (status_code r) (reason r) url"
    unfolding answer_SystemExit by blast
  with k show "\<exists>k r. snd (get_next_available_date e start_date end_date top_n date lg)
                          = lg @ replicate (Suc k) rq
                      \<and> network e (length lg + k) rq = Returned r
                      \<and> 400 \<le> status_code r \<and> status_code r < 600
                      \<and> h = HTTPError (status_code r) (reason r) url"
    by blast
next
  fix date1 assume a: "retried url top_n (network e (length lg) rq) \<and> next_date_string date = Inr date1"
  then have "retried (most_traded_url start_date end_date top_n) top_n
               (network e (length lg) (tool_request e start_date end_date top_n))"
    unfolding url_def rq_def by simp
  from loop_advances [OF this, of date] a
  show "get_next_available_date e start_date end_date top_n date lg
          = get_next_available_date e start_date end_date top_n date1 (lg @ [rq])"
    unfolding rq_def by simp
next
  fix out
  show "retried url top_n out \<longleftrightarrow> (\<exists>x. answer url top_n date out = Inl x \<and> is_Exception x)"
    by (rule retried_answer)
next
  fix x show "retried url top_n (Raised x)" by (simp add: retried_def answer_def)
next
  fix r assume "\<not> (400 \<le> status_code r \<and> status_code r < 600) \<and> json_body r = None"
  then show "retried url top_n (Returned r)" by (auto simp: retried_def answer_def)
next
  fix r assume "400 \<le> status_code r \<and> status_code r < 600"
  then show "\<not> retried url top_n (Returned r)" by (simp add: retried_def answer_def)
qed

text \<open>
  A timeout followed by a 503: the first attempt moves the date from 2024-01-06 to
  2024-01-07, the second leaves the loop with \<^verbatim>\<open>SystemExit\<close>.
\<close>

theorem http_error_leaves_the_resolver_witness:
  "get_next_available_date
     (scripted [Raised Timeout, Returned (Response 503 ''Service Unavailable'' None)])
     ''2024-01-06'' ''2024-01-08'' 5 ''2024-01-06'' []
   = (Inl (SystemExit (HTTPError 503 ''Service Unavailable''
             (most_traded_url ''2024-01-06'' ''2024-01-08'' 5))),
      [Request (most_traded_url ''2024-01-06'' ''2024-01-08'' 5) (Some ''key''),
       Request (most_traded_url ''2024-01-06'' ''2024-01-08'' 5) (Some ''key'')])"
proof -
  let ?e = "scripted [Raised Timeout, Returned (Response 503 ''Service Unavailable'' None)]"
  let ?rq = "Request (most_traded_url ''2024-01-06'' ''2024-01-08'' 5) (Some ''key'')"
  have rq: "tool_request ?e ''2024-01-06'' ''2024-01-08'' 5 = ?rq"
    by (simp add: tool_request_def scripted_def)
  have n0: "network ?e (length ([]::request list)) ?rq = Raised Timeout"
    by (simp add: scripted_def)
  have n1: "network ?e (length [?rq]) ?rq = Returned (Response 503 ''Service Unavailable'' None)"
    by (simp add: scripted_def)
  note first = http_error_leaves_the_resolver
    [where e = ?e and start_date = "''2024-01-06''" and end_date = "''2024-01-08''"
       and top_n = 5 and date = "''2024-01-06''" and lg = "[]", unfolded rq n0]
  note second = http_error_leaves_the_resolver
    [where e = ?e and start_date = "''2024-01-06''" and end_date = "''2024-01-08''"
       and top_n = 5 and date = "''2024-01-07''" and lg = "[?rq]", unfolded rq n1]
  from first have r: "retried (most_traded_url ''2024-01-06'' ''2024-01-08'' 5) 5 (Raised Timeout)"
    by blast
  from first r next_day_of_saturday
  have "get_next_available_date ?e ''2024-01-06'' ''2024-01-08'' 5 ''2024-01-06'' []
          = get_next_available_date ?e ''2024-01-06'' ''2024-01-08'' 5 ''2024-01-07'' ([] @ [?rq])"
    by blast
  moreover from second
  have "get_next_available_date ?e ''2024-01-06'' ''2024-01-08'' 5 ''2024-01-07'' [?rq]
          = (Inl (SystemExit (HTTPError 503 ''Service Unavailable''
                    (most_traded_url ''2024-01-06'' ''2024-01-08'' 5))), [?rq] @ [?rq])"
    by simp
  ultimately show ?thesis by simp
qed

text \<open>
  Claim C10 speaks of every non-2xx response. A 304 response without a JSON body is not
  2xx, passes \<^verbatim>\<open>raise_for_status\<close>, fails in \<^verbatim>\<open>response.json()\<close> and is turned into
  a date advancement: the table that comes back is labelled with the next day.
\<close>

theorem http_error_leaves_the_resolver_counterexample:
  "get_top_companies_by_tx_volume_4
     (scripted [Returned (Response 304 ''Not Modified'' None),
                Returned (Response 200 ''OK'' (Some two_days_doc))])
     ''2024-01-06'' ''2024-01-08'' 5 []
   = (Inr ''Here is the top companies by transaction volume for 2024-01-07:\<newline>--------------------------------\<newline>Company Name        Symbol    Total Volume   \<newline>--------------------------------\<newline>A                   AAA       150            \<newline>'',
      [Request ''https://api.sectors.app/v1/most-traded/?start=2024-01-06&end=2024-01-08&n_stock=5''
         (Some ''key''),
       Request ''https://api.sectors.app/v1/most-traded/?start=2024-01-06&end=2024-01-08&n_stock=5''
         (Some ''key'')])"
  by code_simp

section \<open>The resolver has no look-ahead ceiling\<close>

text \<open>
  Claim C1, as the code has it. There is no \<^verbatim>\<open>max_lookahead_days\<close> and no
  \<^verbatim>\<open>NoTradingDataError\<close> in the code. When every attempt raises an exception of class
  \<^verbatim>\<open>Exception\<close>, the loop ends all the same, on the date arithmetic of its handler:
  \<^item> from a candidate date in the year 1000 or later, or on 0999-12-31, it issues one
    request per day up to 9999-12-31, that is 3652060 minus the ordinal of the date, and
    ends with \<^verbatim>\<open>OverflowError\<close>;
  \<^item> from an earlier candidate date the next date is printed with fewer than four
    digits for the year and is not read back: the loop ends with \<^verbatim>\<open>ValueError\<close>
    after two requests;
  \<^item> from a candidate that is not a date in the format \<^verbatim>\<open>%Y-%m-%d\<close> it ends with
    \<^verbatim>\<open>ValueError\<close> after the first request.
\<close>

theorem resolver_has_no_ceiling:
  fixes e start_date end_date top_n date lg
  defines "url \<equiv> most_traded_url start_date end_date top_n"
    and "rq \<equiv> tool_request e start_date end_date top_n"
  assumes "\<forall>i\<ge>length lg. retried url top_n (network e i rq)"
  shows "(\<forall>d. strptime date = Inr d \<and> (1000 \<le> year d \<or> d = Date 999 12 31)
            \<longrightarrow> get_next_available_date e start_date end_date top_n date lg
                  = (Inl OverflowError, lg @ replicate (3652060 - toordinal d) rq))
       \<and> (\<forall>d. strptime date = Inr d \<and> year d < 1000 \<and> d \<noteq> Date 999 12 31
            \<longrightarrow> get_next_available_date e start_date end_date top_n date lg
                  = (Inl ValueError, lg @ [rq, rq]))
       \<and> (\<forall>y. strptime date = Inl y
            \<longrightarrow> get_next_available_date e start_date end_date top_n date lg
                  = (Inl ValueError, lg @ [rq]))"
proof (intro conjI allI impI)
  fix d assume a: "strptime date = Inr d \<and> (1000 \<le> year d \<or> d = Date 999 12 31)"
  then have d: "strptime date = Inr d" by simp
  then have "date_ok d" by (rule strptime_valid)
  then have n: "Suc (days_to_max d) = 3652060 - toordinal d" by (rule requests_until_overflow)
  from a have "\<forall>d1. add_one_day d = Inr d1 \<longrightarrow> 1000 \<le> year d1"
    by (intro next_day_full_year) simp
  with loop_all_fail [of lg start_date end_date top_n e date d] assms(3) d n
  show "get_next_available_date e start_date end_date top_n date lg
                  = (Inl OverflowError, lg @ replicate (3652060 - toordinal d) rq)"
    unfolding url_def rq_def by simp
next
  fix d assume a: "strptime date = Inr d \<and> year d < 1000 \<and> d \<noteq> Date 999 12 31"
  then have d: "strptime date = Inr d" by simp
  then have "date_ok d" by (rule strptime_valid)
  with a obtain d1 where d1: "add_one_day d = Inr d1" "year d1 < 1000"
    using next_day_short_year by blast
  from assms(3) have "retried (most_traded_url start_date end_date top_n) top_n
      (network e (length lg) (tool_request e start_date end_date top_n))"
    and "retried (most_traded_url start_date end_date top_n) top_n
      (network e (Suc (length lg)) (tool_request e start_date end_date top_n))"
    unfolding url_def rq_def by simp_all
  from loop_short_year [OF this d d1]
  show "get_next_available_date e start_date end_date top_n date lg
          = (Inl ValueError, lg @ [rq, rq])"
    unfolding rq_def .
next
  fix y assume y: "strptime date = Inl y"
  from assms(3) have "retried (most_traded_url start_date end_date top_n) top_n
      (network e (length lg) (tool_request e start_date end_date top_n))"
    unfolding url_def rq_def by simp
  from loop_malformed_date [OF this y]
  show "get_next_available_date e start_date end_date top_n date lg = (Inl ValueError, lg @ [rq])"
    unfolding rq_def .
qed

text \<open>
  A server that cannot be reached: from 2024-01-06 the loop sends 2913169 requests before
  it gives up, from 0999-12-30 it sends two, and a start date that is not a date ends it
  after one.
\<close>

theorem resolver_has_no_ceiling_witness:
  "get_next_available_date unreachable ''2024-01-06'' ''2024-01-08'' 5 ''2024-01-06'' []
     = (Inl OverflowError,
        replicate 2913169
          (Request ''https://api.sectors.app/v1/most-traded/?start=2024-01-06&end=2024-01-08&n_stock=5''
             (Some ''key'')))
   \<and> get_next_available_date unreachable ''0999-12-30'' ''2024-01-08'' 5 ''0999-12-30'' []
     = (Inl ValueError,
        [Request (most_traded_url ''0999-12-30'' ''2024-01-08'' 5) (Some ''key''),
         Request (most_traded_url ''0999-12-30'' ''2024-01-08'' 5) (Some ''key'')])
   \<and> get_next_available_date unreachable ''next Monday'' ''2024-01-08'' 5 ''next Monday'' []
     = (Inl ValueError,
        [Request (most_traded_url ''next Monday'' ''2024-01-08'' 5) (Some ''key'')])"
proof -
  have q: "strptime ''next Monday'' = Inl ValueError"
    by (simp add: strptime_def is_digit_def)
  have p: "strptime ''0999-12-30'' = Inr (Date 999 12 30)"
    by (simp add: strptime_def is_digit_def digit_val_def days_in_month_def is_leap_def)
  have f: "\<forall>i\<ge>length ([]::request list). retried (most_traded_url s en 5) 5
             (network unreachable i (tool_request unreachable s en 5))" for s en
    by (simp add: unreachable_retried)
  from resolver_has_no_ceiling
         [where e = unreachable and start_date = "''2024-01-06''" and end_date = "''2024-01-08''"
            and top_n = 5 and date = "''2024-01-06''" and lg = "[]", OF f] strptime_saturday
  have "get_next_available_date unreachable ''2024-01-06'' ''2024-01-08'' 5 ''2024-01-06'' []
     = (Inl OverflowError, [] @ replicate (3652060 - toordinal (Date 2024 1 6))
          (tool_request unreachable ''2024-01-06'' ''2024-01-08'' 5))"
    by simp
  moreover
  from resolver_has_no_ceiling
         [where e = unreachable and start_date = "''0999-12-30''" and end_date = "''2024-01-08''"
            and top_n = 5 and date = "''0999-12-30''" and lg = "[]", OF f] p
  have "get_next_available_date unreachable ''0999-12-30'' ''2024-01-08'' 5 ''0999-12-30'' []
     = (Inl ValueError, [] @ [tool_request unreachable ''0999-12-30'' ''2024-01-08'' 5,
                              tool_request unreachable ''0999-12-30'' ''2024-01-08'' 5])"
    by simp
  moreover
  from resolver_has_no_ceiling
         [where e = unreachable and start_date = "''next Monday''" and end_date = "''2024-01-08''"
            and top_n = 5 and date = "''next Monday''" and lg = "[]", OF f] q
  have "get_next_available_date unreachable ''next Monday'' ''2024-01-08'' 5 ''next Monday'' []
     = (Inl ValueError, [] @ [tool_request unreachable ''next Monday'' ''2024-01-08'' 5])"
    by blast
  ultimately show ?thesis
    unfolding toordinal_saturday unreachable_request saturday_url append_Nil by (intro conjI)
qed

text \<open>
  Claim C1 as the specification words it fails on the tool: against a server that cannot
  be reached, the call for 2024-01-06 goes through 2913168 advancement steps and fails
  with \<^verbatim>\<open>OverflowError\<close>.
\<close>

theorem resolver_has_no_ceiling_counterexample:
  "get_top_companies_by_tx_volume_4 unreachable ''2024-01-06'' ''2024-01-08'' 5 []
     = (Inl OverflowError,
        replicate 2913169
          (Request ''https://api.sectors.app/v1/most-traded/?start=2024-01-06&end=2024-01-08&n_stock=5''
             (Some ''key'')))"
  unfolding tool_4_result unreachable_saturday by simp

section \<open>The fetch ignores the candidate date\<close>

lemma sunday_url:
  "most_traded_url ''2024-01-07'' ''2024-01-08'' 5
     = ''https://api.sectors.app/v1/most-traded/?start=2024-01-07&end=2024-01-08&n_stock=5''"
  by code_simp

text \<open>
  Claim C2 against the code. \<^verbatim>\<open>fetch_data\<close> does not use its parameter: every request
  of the loop is the request for the tool's own \<^verbatim>\<open>start_date\<close>, whatever the candidate
  date has become. So with a server that has data for the window starting on 2024-01-07
  and refuses every other request, the call for 2024-01-06 never asks for 2024-01-07: it
  repeats the request for 2024-01-06 until the date overflows. And when the same request
  fails once and then succeeds, the table is labelled 2024-01-07 although its data was
  fetched for the window starting on 2024-01-06.
\<close>

theorem fetch_ignores_the_candidate_date:
  "(\<exists>k. snd (get_next_available_date e start_date end_date top_n date lg)
           = lg @ replicate (Suc k) (tool_request e start_date end_date top_n))
   \<and> fetch_data e start_date end_date top_n date lg
       = fetch_data e start_date end_date top_n start_date lg
   \<and> network
        (serving_only
           ''https://api.sectors.app/v1/most-traded/?start=2024-01-07&end=2024-01-08&n_stock=5''
           two_days_doc) i
        (Request ''https://api.sectors.app/v1/most-traded/?start=2024-01-07&end=2024-01-08&n_stock=5''
           (Some ''key''))
       = Returned (Response 200 ''OK'' (Some two_days_doc))
   \<and> get_top_companies_by_tx_volume_4
        (serving_only
           ''https://api.sectors.app/v1/most-traded/?start=2024-01-07&end=2024-01-08&n_stock=5''
           two_days_doc)
        ''2024-01-06'' ''2024-01-08'' 5 []
       = (Inl OverflowError,
          replicate 2913169
            (Request ''https://api.sectors.app/v1/most-traded/?start=2024-01-06&end=2024-01-08&n_stock=5''
               (Some ''key'')))
   \<and> get_top_companies_by_tx_volume_4
        (scripted [Raised Timeout, Returned (Response 200 ''OK'' (Some two_days_doc))])
        ''2024-01-06'' ''2024-01-08'' 5 []
       = (Inr ''Here is the top companies by transaction volume for 2024-01-07:\<newline>--------------------------------\<newline>Company Name        Symbol    Total Volume   \<newline>--------------------------------\<newline>A                   AAA       150            \<newline>'',
          [Request ''https://api.sectors.app/v1/most-traded/?start=2024-01-06&end=2024-01-08&n_stock=5''
             (Some ''key''),
           Request ''https://api.sectors.app/v1/most-traded/?start=2024-01-06&end=2024-01-08&n_stock=5''
             (Some ''key'')])"
proof (intro conjI)
  show "\<exists>k. snd (get_next_available_date e start_date end_date top_n date lg)
           = lg @ replicate (Suc k) (tool_request e start_date end_date top_n)"
    using loop_trace [of e start_date end_date top_n date lg] by blast
  show "fetch_data e start_date end_date top_n date lg
       = fetch_data e start_date end_date top_n start_date lg"
    by (simp add: fetch_data_def)
  let ?u2 = "''https://api.sectors.app/v1/most-traded/?start=2024-01-07&end=2024-01-08&n_stock=5''"
  let ?e = "serving_only ?u2 two_days_doc"
  show "network ?e i (Request ?u2 (Some ''key'')) = Returned (Response 200 ''OK'' (Some two_days_doc))"
    by (simp add: serving_only_def only_url_def)
  have rq: "tool_request ?e ''2024-01-06'' ''2024-01-08'' 5
      = Request ''https://api.sectors.app/v1/most-traded/?start=2024-01-06&end=2024-01-08&n_stock=5''
          (Some ''key'')"
    by (simp add: tool_request_def serving_only_def saturday_url)
  have net: "network ?e i (tool_request ?e ''2024-01-06'' ''2024-01-08'' 5) = Raised ConnectionError"
    for i
    unfolding rq by (simp add: serving_only_def only_url_def)
  have "date_ok (Date 2024 1 6)" using strptime_saturday by (rule strptime_valid)
  from requests_until_overflow [OF this] have n: "Suc (days_to_max (Date 2024 1 6)) = 2913169"
    unfolding toordinal_saturday .
  have "\<forall>i\<ge>length ([]::request list).
          retried (most_traded_url ''2024-01-06'' ''2024-01-08'' 5) 5
            (network ?e i (tool_request ?e ''2024-01-06'' ''2024-01-08'' 5))"
    by (simp add: net retried_def answer_def)
  from loop_all_fail [OF this strptime_saturday saturday_full_year]
  show "get_top_companies_by_tx_volume_4 ?e ''2024-01-06'' ''2024-01-08'' 5 []
       = (Inl OverflowError,
          replicate 2913169
            (Request ''https://api.sectors.app/v1/most-traded/?start=2024-01-06&end=2024-01-08&n_stock=5''
               (Some ''key'')))"
    unfolding tool_4_result n rq by simp
  show "get_top_companies_by_tx_volume_4
        (scripted [Raised Timeout, Returned (Response 200 ''OK'' (Some two_days_doc))])
        ''2024-01-06'' ''2024-01-08'' 5 []
       = (Inr ''Here is the top companies by transaction volume for 2024-01-07:\<newline>--------------------------------\<newline>Company Name        Symbol    Total Volume   \<newline>--------------------------------\<newline>A                   AAA       150            \<newline>'',
          [Request ''https://api.sectors.app/v1/most-traded/?start=2024-01-06&end=2024-01-08&n_stock=5''
             (Some ''key''),
           Request ''https://api.sectors.app/v1/most-traded/?start=2024-01-06&end=2024-01-08&n_stock=5''
             (Some ''key'')])"
    by code_simp
qed

section \<open>A successful attempt\<close>

lemma tool_3_answer:
  "get_top_companies_by_tx_volume_3 e start_date end_date top_n lg
     = (case answer (most_traded_url start_date end_date top_n) top_n date
               (network e (length lg) (tool_request e start_date end_date top_n)) of
          Inl x \<Rightarrow> Inl x
        | Inr v \<Rightarrow> format_table_3 (snd v),
        lg @ [tool_request e start_date end_date top_n])"
  by (simp add: get_top_companies_by_tx_volume_3_def retrieve_from_endpoint_def requests_get_def
        raise_for_status_def response_json_def answer_def tool_request_def Let_def
        split: outcome.splits option.splits sum.splits)

lemma snd_tool_4:
  "snd (get_top_companies_by_tx_volume_4 e start_date end_date top_n lg)
     = snd (get_next_available_date e start_date end_date top_n start_date lg)"
  by (auto simp: tool_4_result split: prod.splits sum.splits)

lemma answer_success:
  assumes "out = Returned r" "\<not> (400 \<le> status_code r \<and> status_code r < 600)"
    "json_body r = Some data" "sum_company_volumes data = Inr cv"
  shows "answer url top_n date out = Inr (date, ranked data top_n)"
proof -
  from assms(4) have "aggregate_volumes (json_dumps data) top_n
      = Inr (dict_of_pairs (py_slice_to (py_sorted_reverse (\<lambda>item. total_volume (snd item)) cv) top_n))"
    by (simp add: aggregate_volumes_def json_dumps_def)
  from aggregate_volumes_Inr [OF this]
  have "aggregate_volumes (json_dumps data) top_n = Inr (ranked data top_n)"
    using \<open>aggregate_volumes (json_dumps data) top_n = _\<close> by (simp add: json_dumps_def)
  with assms(1-3) show ?thesis by (simp add: answer_def)
qed

lemma ranked_nonpositive:
  assumes "sum_company_volumes data = Inr cv" "top_n \<le> 0"
  shows "ranked data top_n
           = (if top_n = 0 then []
              else take (length cv - nat (- top_n))
                     (py_sorted_reverse (\<lambda>item. total_volume (snd item)) cv))"
proof -
  from sum_company_volumes_expected [OF assms(1)]
  have cv: "expected_volumes (records_of data) = cv" by simp
  have "nat (int (length cv) + top_n) = length cv - nat (- top_n)" using assms(2) by simp
  with assms(2) show ?thesis
    by (simp add: ranked_def cv py_slice_to_def length_py_sorted_reverse)
qed

lemma serving_request:
  "tool_request (serving doc) s en n = Request (most_traded_url s en n) (Some ''key'')"
  "network (serving doc) i rq = Returned (Response 200 ''OK'' (Some doc))"
  by (simp_all add: tool_request_def serving_def always_def)

section \<open>The resolver and empty results\<close>

text \<open>
  Claim C3, as the code has it. The loop has no test for an empty result: whatever the
  \<^verbatim>\<open>try\<close> block returns is returned at once, after that one request and with the
  candidate date unchanged. In particular, when the fetch succeeds and the aggregation
  gives no entry, the loop returns the candidate date with the empty result, and the tool
  formats it as a table without data rows. An attempt that returns a result is never one
  that sends the loop on to the next date.
\<close>

theorem empty_result_is_returned:
  fixes e start_date end_date top_n date lg
  defines "url \<equiv> most_traded_url start_date end_date top_n"
    and "rq \<equiv> tool_request e start_date end_date top_n"
  shows "(\<forall>v. answer url top_n date (network e (length lg) rq) = Inr v
            \<longrightarrow> get_next_available_date e start_date end_date top_n date lg = (Inr v, lg @ [rq]))
       \<and> (\<forall>r data. network e (length lg) rq = Returned r
                  \<and> \<not> (400 \<le> status_code r \<and> status_code r < 600)
                  \<and> json_body r = Some data
                  \<and> aggregate_volumes (json_dumps data) top_n = Inr []
            \<longrightarrow> get_next_available_date e start_date end_date top_n date lg
                  = (Inr (date, []), lg @ [rq])
                \<and> get_top_companies_by_tx_volume_4 e start_date end_date top_n lg
                  = (format_table_4 start_date [], lg @ [rq]))
       \<and> (\<forall>out v. answer url top_n date out = Inr v \<longrightarrow> \<not> retried url top_n out)"
proof (intro conjI allI impI)
  fix v assume "answer url top_n date (network e (length lg) rq) = Inr v"
  then show "get_next_available_date e start_date end_date top_n date lg = (Inr v, lg @ [rq])"
    unfolding url_def rq_def by (rule loop_returns)
next
  fix r data
  assume a: "network e (length lg) rq = Returned r
                  \<and> \<not> (400 \<le> status_code r \<and> status_code r < 600)
                  \<and> json_body r = Some data
                  \<and> aggregate_volumes (json_dumps data) top_n = Inr []"
  then have "answer url top_n d (network e (length lg) rq) = Inr (d, [])" for d
    by (simp add: answer_def)
  then have l: "get_next_available_date e start_date end_date top_n d lg = (Inr (d, []), lg @ [rq])"
    for d
    unfolding url_def rq_def by (rule loop_returns)
  show "get_next_available_date e start_date end_date top_n date lg = (Inr (date, []), lg @ [rq])"
    by (rule l)
  show "get_top_companies_by_tx_volume_4 e start_date end_date top_n lg
          = (format_table_4 start_date [], lg @ [rq])"
    by (simp add: tool_4_result l)
next
  fix out v assume "answer url top_n date out = Inr v"
  then show "\<not> retried url top_n out"
    by (simp add: retried_answer [of url top_n out date])
qed

text \<open>
  A server whose document has a date without records: the tool called for 2024-01-06
  returns the empty table for 2024-01-06 after one request.
\<close>

theorem empty_result_is_returned_witness:
  "get_top_companies_by_tx_volume_4 (serving (JObj [(''2024-01-06'', JArr [])]))
     ''2024-01-06'' ''2024-01-08'' 5 []
   = (format_table_4 ''2024-01-06'' [],
      [Request (most_traded_url ''2024-01-06'' ''2024-01-08'' 5) (Some ''key'')])
   \<and> aggregate_volumes (json_dumps (JObj [(''2024-01-06'', JArr [])])) 5 = Inr []"
proof -
  have a: "aggregate_volumes (json_dumps (JObj [(''2024-01-06'', JArr [])])) 5 = Inr []"
    by code_simp
  note t = empty_result_is_returned
    [where e = "serving (JObj [(''2024-01-06'', JArr [])])" and start_date = "''2024-01-06''"
       and end_date = "''2024-01-08''" and top_n = 5 and date = "''2024-01-06''" and lg = "[]",
     unfolded serving_request, THEN conjunct2, THEN conjunct1, rule_format,
     of "Response 200 ''OK'' (Some (JObj [(''2024-01-06'', JArr [])]))"
        "JObj [(''2024-01-06'', JArr [])]"]
  from t a show ?thesis by simp
qed

text \<open>
  Claim C3 as the specification words it fails on the tool: the fetch succeeds with an
  empty document, and the caller gets the empty table for the original date; no second
  request is made.
\<close>

theorem empty_result_is_returned_counterexample:
  "get_top_companies_by_tx_volume_4 (serving (JObj [])) ''2024-01-06'' ''2024-01-08'' 5 []
   = (Inr ''Here is the top companies by transaction volume for 2024-01-06:\<newline>--------------------------------\<newline>Company Name        Symbol    Total Volume   \<newline>--------------------------------\<newline>'',
      [Request ''https://api.sectors.app/v1/most-traded/?start=2024-01-06&end=2024-01-08&n_stock=5''
         (Some ''key'')])"
  by code_simp

section \<open>No check of \<open>top_n\<close>\<close>

text \<open>
  Claim C4, as the code has it. Neither script checks \<^verbatim>\<open>top_n\<close>, and there is no
  \<^verbatim>\<open>InvalidArgument\<close>. With \<open>top_n \<le> 0\<close> both tools issue their request, with
  \<^verbatim>\<open>n_stock\<close> set to \<^verbatim>\<open>top_n\<close>, before anything else; and when the response is a
  document on which the aggregation succeeds, they return the table of the ranking cut
  by the slice \<^verbatim>\<open>[:top_n]\<close>: no entry for \<open>top_n = 0\<close>, and all but the last
  \<open>- top_n\<close> entries for \<open>top_n < 0\<close>.
\<close>

theorem top_n_is_not_validated:
  fixes e start_date end_date top_n lg
  defines "rq \<equiv> tool_request e start_date end_date top_n"
  assumes "top_n \<le> 0"
  shows "snd (get_top_companies_by_tx_volume_3 e start_date end_date top_n lg) = lg @ [rq]
       \<and> (\<exists>k. snd (get_top_companies_by_tx_volume_4 e start_date end_date top_n lg)
                = lg @ replicate (Suc k) rq)
       \<and> (\<forall>r data cv. network e (length lg) rq = Returned r
                  \<and> \<not> (400 \<le> status_code r \<and> status_code r < 600)
                  \<and> json_body r = Some data
                  \<and> sum_company_volumes data = Inr cv
            \<longrightarrow> get_top_companies_by_tx_volume_3 e start_date end_date top_n lg
                  = (format_table_3 (ranked data top_n), lg @ [rq])
                \<and> get_top_companies_by_tx_volume_4 e start_date end_date top_n lg
                  = (format_table_4 start_date (ranked data top_n), lg @ [rq])
                \<and> ranked data top_n
                  = (if top_n = 0 then []
                     else take (length cv - nat (- top_n))
                            (py_sorted_reverse (\<lambda>item. total_volume (snd item)) cv)))"
proof (intro conjI allI impI)
  show "snd (get_top_companies_by_tx_volume_3 e start_date end_date top_n lg) = lg @ [rq]"
    unfolding rq_def by (simp add: tool_3_answer [of e start_date end_date top_n lg "[]"])
  from loop_trace [of e start_date end_date top_n start_date lg]
  obtain k where "snd (get_next_available_date e start_date end_date top_n start_date lg)
      = lg @ replicate (Suc k) rq"
    unfolding rq_def by blast
  then have "snd (get_top_companies_by_tx_volume_4 e start_date end_date top_n lg)
      = lg @ replicate (Suc k) rq"
    by (simp only: snd_tool_4)
  then show "\<exists>k. snd (get_top_companies_by_tx_volume_4 e start_date end_date top_n lg)
                = lg @ replicate (Suc k) rq"
    by blast
next
  fix r data cv
  assume a: "network e (length lg) rq = Returned r
                  \<and> \<not> (400 \<le> status_code r \<and> status_code r < 600)
                  \<and> json_body r = Some data
                  \<and> sum_company_volumes data = Inr cv"
  then have ans: "answer (most_traded_url start_date end_date top_n) top_n d
                    (network e (length lg) rq) = Inr (d, ranked data top_n)" for d
    by (intro answer_success [where r = r and cv = cv]) simp_all
  show "get_top_companies_by_tx_volume_3 e start_date end_date top_n lg
          = (format_table_3 (ranked data top_n), lg @ [rq])"
    using ans [of "[]"] unfolding rq_def
    by (simp add: tool_3_answer [of e start_date end_date top_n lg "[]"])
  from ans [of start_date]
  have "get_next_available_date e start_date end_date top_n start_date lg
          = (Inr (start_date, ranked data top_n), lg @ [rq])"
    unfolding rq_def by (rule loop_returns)
  then show "get_top_companies_by_tx_volume_4 e start_date end_date top_n lg
          = (format_table_4 start_date (ranked data top_n), lg @ [rq])"
    by (simp add: tool_4_result)
  from a have "sum_company_volumes data = Inr cv" by simp
  from ranked_nonpositive [OF this assms(2)]
  show "ranked data top_n
          = (if top_n = 0 then []
             else take (length cv - nat (- top_n))
                    (py_sorted_reverse (\<lambda>item. total_volume (snd item)) cv))" .
qed

text \<open>With \<open>top_n = -1\<close> and three companies the table has the first two.\<close>

theorem top_n_is_not_validated_witness:
  "(- 1 :: int) \<le> 0
   \<and> get_top_companies_by_tx_volume_3 (serving three_companies_doc) ''2024-01-02'' ''2024-01-02'' (- 1) []
     = (Inr ''Top Companies by Transaction Volume\<newline>--------------------------------\<newline>Company Name        Symbol    Total Volume   \<newline>--------------------------------\<newline>X                   XXX       300            \<newline>Y                   YYY       200            \<newline>'',
        [Request ''https://api.sectors.app/v1/most-traded/?start=2024-01-02&end=2024-01-02&n_stock=-1''
           (Some ''key'')])"
proof -
  have m: "(- 1 :: int) \<le> 0" by simp
  have s: "sum_company_volumes three_companies_doc
     = Inr [(JStr ''Y'', \<lparr>symbol = JStr ''YYY'', total_volume = 200\<rparr>),
            (JStr ''X'', \<lparr>symbol = JStr ''XXX'', total_volume = 300\<rparr>),
            (JStr ''Z'', \<lparr>symbol = JStr ''ZZZ'', total_volume = 100\<rparr>)]"
    by code_simp
  have f: "format_table_3 (ranked three_companies_doc (- 1))
     = Inr ''Top Companies by Transaction Volume\<newline>--------------------------------\<newline>Company Name        Symbol    Total Volume   \<newline>--------------------------------\<newline>X                   XXX       300            \<newline>Y                   YYY       200            \<newline>''"
    by code_simp
  have u: "most_traded_url ''2024-01-02'' ''2024-01-02'' (- 1)
     = ''https://api.sectors.app/v1/most-traded/?start=2024-01-02&end=2024-01-02&n_stock=-1''"
    by code_simp
  note t = top_n_is_not_validated
    [where e = "serving three_companies_doc" and start_date = "''2024-01-02''"
       and end_date = "''2024-01-02''" and top_n = "- 1" and lg = "[]", OF m,
     unfolded serving_request, THEN conjunct2, THEN conjunct2, rule_format,
     of "Response 200 ''OK'' (Some three_companies_doc)" three_companies_doc
        "[(JStr ''Y'', \<lparr>symbol = JStr ''YYY'', total_volume = 200\<rparr>),
          (JStr ''X'', \<lparr>symbol = JStr ''XXX'', total_volume = 300\<rparr>),
          (JStr ''Z'', \<lparr>symbol = JStr ''ZZZ'', total_volume = 100\<rparr>)]"]
  from t s have "get_top_companies_by_tx_volume_3 (serving three_companies_doc)
       ''2024-01-02'' ''2024-01-02'' (- 1) []
     = (format_table_3 (ranked three_companies_doc (- 1)),
        [] @ [Request (most_traded_url ''2024-01-02'' ''2024-01-02'' (- 1)) (Some ''key'')])"
    by simp
  with m show ?thesis unfolding f u by simp
qed

text \<open>
  Claim C4 as the specification words it fails on both tools: with \<open>top_n = 0\<close> the
  request is sent, with \<^verbatim>\<open>n_stock=0\<close>, and the result is a table without data rows.
\<close>

theorem top_n_is_not_validated_counterexample:
  "get_top_companies_by_tx_volume_3 (serving three_companies_doc) ''2024-01-02'' ''2024-01-02'' 0 []
     = (Inr ''Top Companies by Transaction Volume\<newline>--------------------------------\<newline>Company Name        Symbol    Total Volume   \<newline>--------------------------------\<newline>'',
        [Request ''https://api.sectors.app/v1/most-traded/?start=2024-01-02&end=2024-01-02&n_stock=0''
           (Some ''key'')])
   \<and> get_top_companies_by_tx_volume_4 (serving three_companies_doc) ''2024-01-02'' ''2024-01-02'' 0 []
     = (Inr ''Here is the top companies by transaction volume for 2024-01-02:\<newline>--------------------------------\<newline>Company Name        Symbol    Total Volume   \<newline>--------------------------------\<newline>'',
        [Request ''https://api.sectors.app/v1/most-traded/?start=2024-01-02&end=2024-01-02&n_stock=0''
           (Some ''key'')])"
  by code_simp

end
